theory Spec2Isabelle
  imports Main "HOL-Library.AList" "HOL-Library.Char_ord" "HOL-Library.List_Lexorder" "HOL-Library.Log_Nat"
begin

chapter \<open>The model\<close>

section \<open>Python strings\<close>

text \<open>
  A Python \<open>str\<close> is modelled by \<open>string\<close>: one \<open>char\<close> stands for one code point
  in the range U+0000..U+00FF, so the character classes below are the restrictions of
  CPython's Unicode classes to that range.
\<close>

abbreviation NL :: char where "NL \<equiv> CHR 0x0A"
abbreviation TAB :: char where "TAB \<equiv> CHR 0x09"
abbreviation CR :: char where "CR \<equiv> CHR 0x0D"

text \<open>\<open>str.isspace\<close> for one character, which is also the class \<open>\s\<close> of \<open>re\<close>.\<close>

definition isspace :: "char \<Rightarrow> bool" where
  "isspace c = (c \<in> set [CHR 0x09, CHR 0x0A, CHR 0x0B, CHR 0x0C, CHR 0x0D, CHR 0x1C,
     CHR 0x1D, CHR 0x1E, CHR 0x1F, CHR 0x20, CHR 0x85, CHR 0xA0])"

text \<open>The class \<open>[A-Za-z]\<close>.\<close>

definition is_ascii_alpha :: "char \<Rightarrow> bool" where
  "is_ascii_alpha c = (let n = (of_char c :: nat) in (65 \<le> n \<and> n \<le> 90) \<or> (97 \<le> n \<and> n \<le> 122))"

definition is_ascii_lower :: "char \<Rightarrow> bool" where
  "is_ascii_lower c = (let n = (of_char c :: nat) in 97 \<le> n \<and> n \<le> 122)"

text \<open>\<open>str.lower\<close>: A-Z and the upper-case letters of Latin-1 move up by 32.\<close>

definition lower_char :: "char \<Rightarrow> char" where
  "lower_char c = (let n = (of_char c :: nat) in
     if (65 \<le> n \<and> n \<le> 90) \<or> (192 \<le> n \<and> n \<le> 222 \<and> n \<noteq> 215) then char_of (n + 32) else c)"

definition lower :: "string \<Rightarrow> string" where
  "lower s = map lower_char s"

definition lstrip :: "string \<Rightarrow> string" where
  "lstrip s = dropWhile isspace s"

definition rstrip :: "string \<Rightarrow> string" where
  "rstrip s = rev (dropWhile isspace (rev s))"

definition strip :: "string \<Rightarrow> string" where
  "strip s = rstrip (lstrip s)"

definition startswith :: "string \<Rightarrow> string \<Rightarrow> bool" where
  "startswith s p = (take (length p) s = p)"

text \<open>\<open>sep.join(xs)\<close>.\<close>

fun join :: "string \<Rightarrow> string list \<Rightarrow> string" where
  "join sep [] = []"
| "join sep [x] = x"
| "join sep (x # y # ys) = x @ sep @ join sep (y # ys)"

text \<open>
  Reading in text mode with the default \<open>newline=None\<close> (\<open>open(path, 'r')\<close>,
  \<open>Path.read_text\<close>) translates \<open>\r\n\<close> and a lone \<open>\r\<close> to \<open>\n\<close>.
\<close>

fun universal_newlines :: "string \<Rightarrow> string" where
  "universal_newlines [] = []"
| "universal_newlines [c] = (if c = CR then [NL] else [c])"
| "universal_newlines (c # d # cs) =
     (if c = CR then (if d = NL then NL # universal_newlines cs else NL # universal_newlines (d # cs))
      else c # universal_newlines (d # cs))"

text \<open>
  \<open>for line in file\<close>: the text cut after every \<open>\n\<close>; each line keeps its
  terminator, and a last line without one is yielded as it is.
\<close>

fun readlines :: "string \<Rightarrow> string list" where
  "readlines [] = []"
| "readlines (c # cs) =
     (if c = NL then [NL] # readlines cs
      else (case readlines cs of [] \<Rightarrow> [[c]] | l # ls \<Rightarrow> (c # l) # ls))"

section \<open>Field parser (\<open>parse_artwork_file\<close> of merge_artworks.py and import_artwork.py)\<close>

text \<open>
  \<open>re.match(r'^([A-Za-z]+)($|\s.*)', line)\<close>, giving groups 1 and 2. The letters are
  taken greedily; giving one back would leave a letter next, which neither alternative
  accepts, so the longest run decides. \<open>$\<close> is tried first and matches at the end or
  before a final newline; \<open>.\<close> stops at a newline.
\<close>

definition field_match :: "string \<Rightarrow> (string \<times> string) option" where
  "field_match line =
     (let g1 = takeWhile is_ascii_alpha line; rest = dropWhile is_ascii_alpha line in
      if g1 = [] then None
      else if rest = [] \<or> rest = [NL] then Some (g1, [])
      else if isspace (hd rest) then Some (g1, hd rest # takeWhile (\<lambda>c. c \<noteq> NL) (tl rest))
      else None)"

text \<open>
  The loop state: the dictionary \<open>artwork\<close> (an association list in insertion order, as
  a Python dict keeps it), \<open>current_field\<close> and \<open>field_content\<close>.
\<close>

record pstate =
  artwork :: "(string \<times> string) list"
  current_field :: "string option"
  field_content :: "string list"

text \<open>Truth value of \<open>current_field\<close>: neither \<open>None\<close> nor the empty string.\<close>

definition truthy :: "string option \<Rightarrow> bool" where
  "truthy f = (case f of None \<Rightarrow> False | Some s \<Rightarrow> s \<noteq> [])"

definition indented :: "string \<Rightarrow> bool" where
  "indented line = (startswith line [TAB] \<or> startswith line ''    '')"

text \<open>\<open>artwork[current_field.lower()] = '\n'.join(field_content).strip()\<close>\<close>

definition save_field :: "pstate \<Rightarrow> (string \<times> string) list" where
  "save_field st =
     AList.update (lower (the (current_field st))) (strip (join [NL] (field_content st))) (artwork st)"

text \<open>One iteration of the loop over the lines of the file.\<close>

definition parse_line :: "pstate \<Rightarrow> string \<Rightarrow> pstate" where
  "parse_line st raw =
     (let line = rstrip raw in
      if strip line = [] then st
      else if \<not> startswith line [TAB] \<and> \<not> startswith line ''    '' then
        (case field_match line of
           None \<Rightarrow> st
         | Some (g1, g2) \<Rightarrow>
             (let st1 = (if truthy (current_field st)
                         then st\<lparr>artwork := save_field st, field_content := []\<rparr> else st);
                  remaining = strip g2
              in st1\<lparr>current_field := Some g1,
                     field_content := (if remaining \<noteq> [] \<and> \<not> startswith remaining ''-''
                                       then field_content st1 @ [remaining] else field_content st1)\<rparr>))
      else if truthy (current_field st) \<and> (startswith line [TAB] \<or> startswith line ''    '') then
        st\<lparr>field_content := field_content st @ [strip line]\<rparr>
      else st)"

definition parse_init :: pstate where
  "parse_init = \<lparr>artwork = [], current_field = None, field_content = []\<rparr>"

text \<open>After the loop: the last field is saved.\<close>

definition parse_finish :: "pstate \<Rightarrow> (string \<times> string) list" where
  "parse_finish st = (if truthy (current_field st) then save_field st else artwork st)"

definition parse_lines :: "string list \<Rightarrow> (string \<times> string) list" where
  "parse_lines ls = parse_finish (foldl parse_line parse_init ls)"

text \<open>The parser on the content of the file, as stored on disk after decoding.\<close>

definition parse_artwork_file :: "string \<Rightarrow> (string \<times> string) list" where
  "parse_artwork_file content = parse_lines (readlines (universal_newlines content))"

section \<open>Directory validator (test_dir_img_txt_title_match.py)\<close>

datatype error = ValueError | ZeroDivisionError | OverflowError | IndexError

text \<open>The classes \<open>\d\<close> and \<open>\w\<close> of \<open>re\<close> on a \<open>str\<close> pattern.\<close>

definition is_digit :: "char \<Rightarrow> bool" where
  "is_digit c = (let n = (of_char c :: nat) in 48 \<le> n \<and> n \<le> 57)"

definition is_word :: "char \<Rightarrow> bool" where
  "is_word c = (let n = (of_char c :: nat) in
     (48 \<le> n \<and> n \<le> 57) \<or> (65 \<le> n \<and> n \<le> 90) \<or> n = 95 \<or> (97 \<le> n \<and> n \<le> 122)
     \<or> n \<in> set [170, 178, 179, 181, 185, 186, 188, 189, 190]
     \<or> (192 \<le> n \<and> n \<noteq> 215 \<and> n \<noteq> 247))"

subsection \<open>The title pattern\<close>

text \<open>
  A backtracking matcher in continuation style, as \<open>re\<close> runs a pattern: the
  continuation \<open>k\<close> is the rest of the pattern. \<open>re_star p k\<close> is a greedy \<open>p*\<close>: it
  takes one more character when it can and the rest then matches, and gives it back
  otherwise. \<open>re_plus\<close> is \<open>p+\<close>, \<open>re_literal\<close> a fixed word, \<open>re_newline\<close> the
  character \<open>\n\<close>.
\<close>

fun re_star :: "(char \<Rightarrow> bool) \<Rightarrow> (string \<Rightarrow> 'a option) \<Rightarrow> string \<Rightarrow> 'a option" where
  "re_star p k [] = k []"
| "re_star p k (c # cs) =
     (if p c then (case re_star p k cs of Some r \<Rightarrow> Some r | None \<Rightarrow> k (c # cs)) else k (c # cs))"

definition re_plus :: "(char \<Rightarrow> bool) \<Rightarrow> (string \<Rightarrow> 'a option) \<Rightarrow> string \<Rightarrow> 'a option" where
  "re_plus p k s = (case s of [] \<Rightarrow> None | c # cs \<Rightarrow> if p c then re_star p k cs else None)"

definition re_literal :: "string \<Rightarrow> (string \<Rightarrow> 'a option) \<Rightarrow> string \<Rightarrow> 'a option" where
  "re_literal w k s = (if startswith s w then k (drop (length w) s) else None)"

definition re_newline :: "(string \<Rightarrow> 'a option) \<Rightarrow> string \<Rightarrow> 'a option" where
  "re_newline k s = (case s of [] \<Rightarrow> None | c # cs \<Rightarrow> if c = NL then k cs else None)"

text \<open>
  The group \<open>([^\n]+)\<close> ends the pattern, so it is never asked to give a character
  back: it captures the rest of the line, which must not be empty.
\<close>

definition capture_line :: "string \<Rightarrow> string option" where
  "capture_line s = (let g = takeWhile (\<lambda>c. c \<noteq> NL) s in if g = [] then None else Some g)"

definition sp_or_tab :: "char \<Rightarrow> bool" where
  "sp_or_tab c = (c = CHR '' '' \<or> c = TAB)"

text \<open>The pattern \<open>Title\s*\n[ \t]+([^\n]+)\<close> tried at the start of a string; the result is group 1.\<close>

definition title_match_at :: "string \<Rightarrow> string option" where
  "title_match_at = re_literal ''Title'' (re_star isspace (re_newline (re_plus sp_or_tab capture_line)))"

text \<open>\<open>re.search\<close>: the match at the leftmost position that has one.\<close>

fun re_search :: "(string \<Rightarrow> 'a option) \<Rightarrow> string \<Rightarrow> 'a option" where
  "re_search m [] = m []"
| "re_search m (c # cs) = (case m (c # cs) of Some r \<Rightarrow> Some r | None \<Rightarrow> re_search m cs)"

text \<open>
  The title check of \<open>get_valid_art_directories\<close> on the text of the description file:
  \<open>Some title\<close> when \<open>hasTitle\<close> is set, \<open>None\<close> otherwise.
\<close>

definition find_title :: "string \<Rightarrow> string option" where
  "find_title txt_content =
     (case re_search title_match_at txt_content of
        None \<Rightarrow> None
      | Some g \<Rightarrow> if strip g \<noteq> [] then Some (strip g) else None)"

subsection \<open>Expected image name\<close>

text \<open>\<open>input_str.split('-', 1)\<close>\<close>

definition split_dash_once :: "string \<Rightarrow> string list" where
  "split_dash_once s =
     (if CHR ''-'' \<in> set s
      then [takeWhile (\<lambda>c. c \<noteq> CHR ''-'') s, tl (dropWhile (\<lambda>c. c \<noteq> CHR ''-'') s)]
      else [s])"

text \<open>\<open>re.sub(r'[-_\W]+', '', rest)\<close> deletes every character of the class.\<close>

definition stripDirStringToImageFormat :: "string \<Rightarrow> error + string" where
  "stripDirStringToImageFormat input_str =
     (let parts = split_dash_once input_str in
      if length parts < 2 then Inl ValueError
      else (let rest = parts ! 1;
                cleaned_rest = filter (\<lambda>c. \<not> (c = CHR ''-'' \<or> c = CHR ''_'' \<or> \<not> is_word c)) rest
            in Inr (''LindseyAyres_'' @ cleaned_rest)))"

text \<open>
  merge_artworks.py has its own derivation. \<open>re.sub(r'^\d+-', '', folder_name)\<close>: the
  digits are taken greedily and a dash must follow the whole run; without a match the name
  is returned as it is.
\<close>

definition sub_leading_number :: "string \<Rightarrow> string" where
  "sub_leading_number s =
     (let ds = takeWhile is_digit s; r = dropWhile is_digit s in
      if ds \<noteq> [] \<and> r \<noteq> [] \<and> hd r = CHR ''-'' then tl r else s)"

definition derive_image_basename_from_folder :: "string \<Rightarrow> string" where
  "derive_image_basename_from_folder folder_name =
     (let name_without_number = sub_leading_number folder_name;
          name_without_underscores = filter (\<lambda>c. c \<noteq> CHR ''_'') name_without_number
      in ''LindseyAyres_'' @ name_without_underscores)"

subsection \<open>The scan\<close>

text \<open>
  The file system as the scan sees it. An entry of a directory has a name, is a regular
  file or not, has a text (\<open>etext\<close>, \<open>None\<close> when reading it as UTF-8 fails) and is an image or
  not (\<open>Image.open\<close> succeeds or raises). A path is the pair of the directory's name
  and the entry's name. Names are compared as the file system does, case-sensitively.
\<close>

record entry =
  ename :: string
  is_file :: bool
  etext :: "string option"
  is_image :: bool

record art_dir =
  dname :: string
  entries :: "entry list"

type_synonym path = "string \<times> string"

record valid_info =
  dir_path :: string
  title :: string
  large_image :: path

text \<open>
  The lists the function builds. \<open>valid_images\<close> is created once, before the loop
  over the directories (line 32 of the source), and is never emptied.
\<close>

record scan =
  valid_art_info :: "valid_info list"
  invalid_art_info :: "string list"
  missing_txt :: "string list"
  missing_img :: "string list"
  missing_title :: "string list"
  missing_matched_img :: "string list"
  valid_images :: "path list"

text \<open>\<open>PurePath.suffix\<close>: from the last dot on, unless that dot is first or last in the name.\<close>

definition path_suffix :: "string \<Rightarrow> string" where
  "path_suffix name =
     (let ext = rev (takeWhile (\<lambda>c. c \<noteq> CHR ''.'') (rev name)) in
      if CHR ''.'' \<in> set name \<and> ext \<noteq> [] \<and> length ext + 1 < length name then CHR ''.'' # ext else [])"

text \<open>Lines 57 to 67: any exception while reading leaves \<open>hasTitle\<close> unset.\<close>

definition read_title :: "art_dir \<Rightarrow> string option" where
  "read_title d =
     (case find (\<lambda>e. ename e = dname d @ ''.txt'') (entries d) of
        None \<Rightarrow> None
      | Some e \<Rightarrow>
          (if is_file e then
             (case etext e of
                None \<Rightarrow> None
              | Some raw \<Rightarrow> find_title (universal_newlines raw))
           else None))"

text \<open>Lines 70 to 84: the images of this directory, in iteration order.\<close>

definition image_files :: "art_dir \<Rightarrow> path list" where
  "image_files d =
     map (\<lambda>e. (dname d, ename e))
       (filter (\<lambda>e. is_file e \<and> lower (path_suffix (ename e)) \<noteq> ''.txt'' \<and> is_image e) (entries d))"

definition image_matches :: "string \<Rightarrow> path \<Rightarrow> bool" where
  "image_matches image_match_to_dir img_path =
     (let expected_image_name = image_match_to_dir @ lower (path_suffix (snd img_path))
      in lower expected_image_name = lower (snd img_path))"

text \<open>
  One iteration of the loop over the directories. The \<open>ValueError\<close> of
  \<open>stripDirStringToImageFormat\<close> is not caught, so it ends the whole function.
\<close>

definition check_dir :: "scan \<Rightarrow> art_dir \<Rightarrow> error + scan" where
  "check_dir sc d =
     (let hasTxtFile = (find (\<lambda>e. ename e = dname d @ ''.txt'') (entries d) \<noteq> None);
          title = read_title d;
          hasTitle = (title \<noteq> None);
          found = image_files d;
          images = valid_images sc @ found;
          hasImgFile = (found \<noteq> [])
      in case (if hasImgFile
               then (case stripDirStringToImageFormat (dname d) of
                       Inl e \<Rightarrow> Inl e
                     | Inr image_match_to_dir \<Rightarrow> Inr (find (image_matches image_match_to_dir) images))
               else Inr None) of
           Inl e \<Rightarrow> Inl e
         | Inr large_image_path \<Rightarrow>
             (let hasMatchImage = (large_image_path \<noteq> None) in
              if hasTxtFile \<and> hasImgFile \<and> hasMatchImage \<and> hasTitle then
                Inr (sc\<lparr>valid_images := images,
                        valid_art_info := valid_art_info sc @
                          [\<lparr>dir_path = dname d, title = the title, large_image = the large_image_path\<rparr>]\<rparr>)
              else
                Inr (sc\<lparr>valid_images := images,
                        invalid_art_info := invalid_art_info sc @ [dname d],
                        missing_txt := missing_txt sc @ (if \<not> hasTxtFile then [dname d] else []),
                        missing_img := missing_img sc @ (if \<not> hasImgFile then [dname d] else []),
                        missing_title := missing_title sc @ (if hasTxtFile \<and> \<not> hasTitle then [dname d] else []),
                        missing_matched_img := missing_matched_img sc @
                          (if hasImgFile \<and> \<not> hasMatchImage then [dname d] else [])\<rparr>)))"

fun check_dirs :: "scan \<Rightarrow> art_dir list \<Rightarrow> error + scan" where
  "check_dirs sc [] = Inr sc"
| "check_dirs sc (d # ds) = (case check_dir sc d of Inl e \<Rightarrow> Inl e | Inr sc' \<Rightarrow> check_dirs sc' ds)"

definition scan_init :: scan where
  "scan_init = \<lparr>valid_art_info = [], invalid_art_info = [], missing_txt = [], missing_img = [],
     missing_title = [], missing_matched_img = [], valid_images = []\<rparr>"

text \<open>
  The function on the subdirectories of \<open>images_path\<close>, given in the order
  \<open>iterdir\<close> lists them; \<open>sorted\<close> is stable.
\<close>

definition get_valid_art_directories :: "art_dir list \<Rightarrow> error + scan" where
  "get_valid_art_directories images_path =
     check_dirs scan_init (sort_key (\<lambda>d. lower (dname d)) images_path)"

section \<open>Python floats\<close>

text \<open>
  A \<open>float\<close> is an IEEE 754 binary64 value. A finite one is kept as the rational
  number it is exactly; the sign of zero is not kept (\<open>0.0\<close> and \<open>-0.0\<close> compare equal,
  and nothing here prints or divides by one).
\<close>

datatype pyfloat = Finite rat | PosInf | NegInf | NaN

definition pow2 :: "int \<Rightarrow> rat" where
  "pow2 e = (if 0 \<le> e then 2 ^ nat e else 1 / 2 ^ nat (- e))"

text \<open>The binary exponent of a positive number: \<open>pow2 (ilog2 x) \<le> x < pow2 (ilog2 x + 1)\<close>.\<close>

definition ilog2 :: "rat \<Rightarrow> int" where
  "ilog2 x = (if 1 \<le> x then bitlen \<lfloor>x\<rfloor> - 1 else - bitlen (\<lceil>1 / x\<rceil> - 1))"

text \<open>To the nearest integer, a tie to the even one: Python's \<open>round\<close>, and the rounding of binary64.\<close>

definition round_half_even :: "rat \<Rightarrow> int" where
  "round_half_even x =
     (let f = \<lfloor>x\<rfloor>; d = x - of_int f in
      if d < 1 / 2 then f else if 1 / 2 < d then f + 1 else if even f then f else f + 1)"

text \<open>
  Rounding to binary64: 53 significant bits, and no bit below \<open>pow2 (- 1074)\<close> (the
  subnormal numbers).
\<close>

definition round64 :: "rat \<Rightarrow> rat" where
  "round64 x =
     (if x = 0 then 0
      else (let q = max (ilog2 \<bar>x\<bar> - 52) (- 1074)
            in of_int (round_half_even (x / pow2 q)) * pow2 q))"

text \<open>The float nearest to a number; a rounded value of \<open>pow2 1024\<close> or more is an infinity.\<close>

definition to_float :: "rat \<Rightarrow> pyfloat" where
  "to_float x =
     (let r = round64 x in
      if r = 0 then Finite 0
      else if 1024 \<le> ilog2 \<bar>r\<bar> then (if 0 < r then PosInf else NegInf)
      else Finite r)"

text \<open>\<open>a / b\<close> on floats: Python raises when the divisor is zero, whatever the dividend is.\<close>

fun fdiv :: "pyfloat \<Rightarrow> pyfloat \<Rightarrow> error + pyfloat" where
  "fdiv a (Finite y) =
     (if y = 0 then Inl ZeroDivisionError
      else Inr (case a of
                  Finite x \<Rightarrow> to_float (x / y)
                | PosInf \<Rightarrow> (if 0 < y then PosInf else NegInf)
                | NegInf \<Rightarrow> (if 0 < y then NegInf else PosInf)
                | NaN \<Rightarrow> NaN))"
| "fdiv (Finite x) PosInf = Inr (Finite 0)"
| "fdiv (Finite x) NegInf = Inr (Finite 0)"
| "fdiv a b = Inr NaN"

fun fsub :: "pyfloat \<Rightarrow> pyfloat \<Rightarrow> pyfloat" where
  "fsub (Finite x) (Finite y) = to_float (x - y)"
| "fsub NaN b = NaN"
| "fsub a NaN = NaN"
| "fsub PosInf PosInf = NaN"
| "fsub NegInf NegInf = NaN"
| "fsub PosInf b = PosInf"
| "fsub NegInf b = NegInf"
| "fsub a PosInf = NegInf"
| "fsub a NegInf = PosInf"

fun fsign :: "pyfloat \<Rightarrow> int" where
  "fsign (Finite x) = (if 0 < x then 1 else if x < 0 then - 1 else 0)"
| "fsign PosInf = 1"
| "fsign NegInf = - 1"
| "fsign NaN = 0"

fun fmul :: "pyfloat \<Rightarrow> pyfloat \<Rightarrow> pyfloat" where
  "fmul (Finite x) (Finite y) = to_float (x * y)"
| "fmul NaN b = NaN"
| "fmul a NaN = NaN"
| "fmul a b = (let s = fsign a * fsign b in if s = 0 then NaN else if 0 < s then PosInf else NegInf)"

fun fabs :: "pyfloat \<Rightarrow> pyfloat" where
  "fabs (Finite x) = Finite \<bar>x\<bar>"
| "fabs NegInf = PosInf"
| "fabs a = a"

text \<open>\<open>a <= b\<close> and \<open>a < b\<close>: false whenever a NaN is compared.\<close>

fun fle :: "pyfloat \<Rightarrow> pyfloat \<Rightarrow> bool" where
  "fle (Finite x) (Finite y) = (x \<le> y)"
| "fle NaN b = False"
| "fle a NaN = False"
| "fle NegInf b = True"
| "fle a PosInf = True"
| "fle a b = False"

fun flt :: "pyfloat \<Rightarrow> pyfloat \<Rightarrow> bool" where
  "flt (Finite x) (Finite y) = (x < y)"
| "flt NaN b = False"
| "flt a NaN = False"
| "flt PosInf b = False"
| "flt a NegInf = False"
| "flt a b = True"

definition feq :: "pyfloat \<Rightarrow> pyfloat \<Rightarrow> bool" where
  "feq a b = (a \<noteq> NaN \<and> a = b)"

text \<open>\<open>round(x)\<close> of a float, giving an int.\<close>

definition py_round :: "pyfloat \<Rightarrow> error + int" where
  "py_round a = (case a of Finite x \<Rightarrow> Inr (round_half_even x) | NaN \<Rightarrow> Inl ValueError | _ \<Rightarrow> Inl OverflowError)"

text \<open>\<open>a / b\<close> on ints: the quotient correctly rounded, or an error.\<close>

definition int_truediv :: "int \<Rightarrow> int \<Rightarrow> error + pyfloat" where
  "int_truediv a b =
     (if b = 0 then Inl ZeroDivisionError
      else (case to_float (of_int a / of_int b) of
              Finite r \<Rightarrow> Inr (Finite r)
            | _ \<Rightarrow> Inl OverflowError))"

subsection \<open>\<open>float(s)\<close>\<close>

text \<open>
  \<open>float\<close> strips white space by its own rule: the ASCII white space of C and the
  white space beyond ASCII, but not the separators U+001C to U+001F.
\<close>

definition float_space :: "char \<Rightarrow> bool" where
  "float_space c = (c \<in> set [CHR 0x09, CHR 0x0A, CHR 0x0B, CHR 0x0C, CHR 0x0D, CHR 0x20, CHR 0x85, CHR 0xA0])"

text \<open>An underscore is accepted between two digits only; \<open>prev\<close> is the character before.\<close>

fun drop_underscores :: "char \<Rightarrow> string \<Rightarrow> string option" where
  "drop_underscores prev [] = (if prev = CHR ''_'' then None else Some [])"
| "drop_underscores prev (c # cs) =
     (if c = CHR ''_'' then (if is_digit prev then drop_underscores c cs else None)
      else if prev = CHR ''_'' \<and> \<not> is_digit c then None
      else map_option ((#) c) (drop_underscores c cs))"

definition digits_value :: "string \<Rightarrow> nat" where
  "digits_value ds = foldl (\<lambda>a c. 10 * a + (of_char c - 48)) 0 ds"

definition pow10 :: "int \<Rightarrow> rat" where
  "pow10 e = (if 0 \<le> e then 10 ^ nat e else 1 / 10 ^ nat (- e))"

definition split_sign :: "string \<Rightarrow> bool \<times> string" where
  "split_sign s =
     (case s of
        [] \<Rightarrow> (False, [])
      | c # cs \<Rightarrow> if c = CHR ''-'' then (True, cs) else if c = CHR ''+'' then (False, cs) else (False, s))"

definition parse_exponent :: "string \<Rightarrow> int option" where
  "parse_exponent r =
     (case r of
        [] \<Rightarrow> Some 0
      | c # cs \<Rightarrow>
          if c = CHR ''e'' \<or> c = CHR ''E'' then
            (let (neg, ds) = split_sign cs in
             if ds \<noteq> [] \<and> list_all is_digit ds
             then Some (if neg then - int (digits_value ds) else int (digits_value ds))
             else None)
          else None)"

text \<open>Digits, an optional point and digits (one digit at least), an optional exponent.\<close>

definition parse_decimal :: "string \<Rightarrow> rat option" where
  "parse_decimal body =
     (let int_digits = takeWhile is_digit body;
          r1 = dropWhile is_digit body;
          has_point = (r1 \<noteq> [] \<and> hd r1 = CHR ''.'');
          frac_digits = (if has_point then takeWhile is_digit (tl r1) else []);
          r2 = (if has_point then dropWhile is_digit (tl r1) else r1)
      in if int_digits = [] \<and> frac_digits = [] then None
         else (case parse_exponent r2 of
                 None \<Rightarrow> None
               | Some e \<Rightarrow>
                   Some (of_nat (digits_value (int_digits @ frac_digits))
                           * pow10 (e - int (length frac_digits)))))"

definition py_float :: "string \<Rightarrow> error + pyfloat" where
  "py_float s =
     (case drop_underscores (CHR 0x00) (rev (dropWhile float_space (rev (dropWhile float_space s)))) of
        None \<Rightarrow> Inl ValueError
      | Some t \<Rightarrow>
          (let (neg, body) = split_sign t in
           if lower body = ''inf'' \<or> lower body = ''infinity'' then Inr (if neg then NegInf else PosInf)
           else if lower body = ''nan'' then Inr NaN
           else (case parse_decimal body of
                   None \<Rightarrow> Inl ValueError
                 | Some v \<Rightarrow> Inr (to_float (if neg then - v else v)))))"

section \<open>Prices (merge_artworks.py)\<close>

definition parse_price :: "string \<Rightarrow> pyfloat" where
  "parse_price price_str =
     (if price_str = [] \<or> strip price_str = [] then Finite 0
      else (let price_str1 = strip (filter (\<lambda>c. c \<noteq> CHR '','') (filter (\<lambda>c. c \<noteq> CHR ''$'') price_str)) in
            if lower price_str1 \<in> set [''sold'', ''not for sale'', ''n/a'', ''na''] then Finite 0
            else (case py_float price_str1 of Inl e \<Rightarrow> Finite 0 | Inr v \<Rightarrow> v)))"

text \<open>\<open>needle in hay\<close>\<close>

fun contains :: "string \<Rightarrow> string \<Rightarrow> bool" where
  "contains needle [] = (needle = [])"
| "contains needle (c # cs) = (startswith (c # cs) needle \<or> contains needle cs)"

definition determine_for_sale :: "string \<Rightarrow> bool" where
  "determine_for_sale price_str =
     (if price_str = [] \<or> strip price_str = [] then False
      else (let price_lower = lower price_str in
            if contains ''sold'' price_lower \<or> contains ''not for sale'' price_lower then False
            else flt (Finite 0) (parse_price price_str)))"

section \<open>Ratio matcher (add_valid_ratios.py)\<close>

text \<open>
  The functions are annotated with \<open>float\<close> arguments and are modelled on floats. The
  script calls them with the pixel sizes of an image, which are ints: an int stands for
  the float of the same value, and below \<open>2 ^ 53\<close> Python computes the same on both.
\<close>

definition calculate_ratio :: "pyfloat \<Rightarrow> pyfloat \<Rightarrow> error + (pyfloat \<times> pyfloat)" where
  "calculate_ratio width height =
     (case py_round (fmul width (Finite 10)) of
        Inl e \<Rightarrow> Inl e
      | Inr w_int \<Rightarrow>
     (case py_round (fmul height (Finite 10)) of
        Inl e \<Rightarrow> Inl e
      | Inr h_int \<Rightarrow>
     (let g = gcd w_int h_int in
      case int_truediv w_int g of
        Inl e \<Rightarrow> Inl e
      | Inr ratio_w \<Rightarrow>
     (case int_truediv h_int g of
        Inl e \<Rightarrow> Inl e
      | Inr ratio_h \<Rightarrow> Inr (ratio_w, ratio_h)))))"

text \<open>
  The catalog, with every size as the source writes it: an int, or a decimal literal
  with one decimal. The float of a literal is \<open>to_float\<close> of it.
\<close>

definition VALID_PRINT_SIZES :: "(string \<times> (rat \<times> rat) list) list" where
  "VALID_PRINT_SIZES =
   [(''1:1'', [(6, 6), (8, 8), (10, 10), (12, 12), (14, 14), (16, 16), (18, 18),
        (20, 20), (23, 23), (24, 24), (28, 28), (30, 30), (32, 32),
        (36, 36), (40, 40)]),
    (''2:3'', [(4, 6), (8, 12), (12, 18), (16, 24), (20, 30), (24, 36),
        (32, 48), (36, 54), (40, 60), (18, 27)]),
    (''3:4'', [(6, 8), (9, 12), (12, 16), (18, 24), (24, 32), (30, 40), (36, 48)]),
    (''4:5'', [(8, 10), (12, 15), (16, 20), (20, 25), (24, 30), (36, 45), (40, 50)]),
    (''Other'', [(3, 7), (4, 10), (5, 7), (5, 10), (5, 12), (68 / 10, 16), (6, 12),
        (8, 20), (8, 24), (8, 28), (85 / 10, 11), (9, 11), (9, 18), (10, 13),
        (10, 17), (10, 20), (10, 24), (10, 30), (10, 36), (11, 14),
        (11, 17), (11, 22), (12, 14), (12, 20), (12, 24), (12, 30),
        (12, 36), (13, 17), (13, 19), (14, 18), (14, 20), (14, 23),
        (14, 24), (14, 28), (14, 36), (14, 50), (15, 30), (16, 22),
        (16, 27), (16, 30), (16, 32), (16, 36), (16, 37), (16, 48),
        (17, 20), (17, 23), (18, 20), (18, 22), (18, 26), (18, 30),
        (18, 36), (18, 43), (18, 45), (18, 47), (18, 50), (18, 54),
        (19, 27), (20, 24), (20, 26), (20, 28), (20, 33), (20, 36),
        (21, 30), (20, 40), (20, 60), (22, 28), (22, 30), (22, 34),
        (22, 36), (24, 28), (24, 38), (24, 40), (24, 45), (24, 48),
        (24, 56), (24, 60), (24, 65), (24, 90), (26, 34), (26, 40),
        (27, 30), (27, 40), (28, 36), (28, 38), (28, 40), (28, 48),
        (30, 50), (30, 60), (30, 75), (32, 42), (32, 44), (32, 54),
        (36, 40), (36, 50), (36, 60), (36, 70), (51 / 10, 71 / 10), (79 / 10, 98 / 10),
        (177 / 10, 236 / 10), (236 / 10, 354 / 10), (394 / 10, 551 / 10)])]"

definition ALL_VALID_SIZES :: "(rat \<times> rat) list" where
  "ALL_VALID_SIZES = concat (map snd VALID_PRINT_SIZES)"

subsection \<open>\<open>format_size\<close>\<close>

fun show_digits :: "nat \<Rightarrow> nat \<Rightarrow> string" where
  "show_digits 0 n = []"
| "show_digits (Suc fuel) n =
     (if n < 10 then [char_of (48 + n)] else show_digits fuel (n div 10) @ [char_of (48 + n mod 10)])"

text \<open>\<open>str\<close> of an int; the fuel is more than the number of digits.\<close>

definition show_int :: "int \<Rightarrow> string" where
  "show_int i = (if i < 0 then CHR ''-'' # show_digits (nat (- i) + 1) (nat (- i)) else show_digits (nat i + 1) (nat i))"

fun frac_digits :: "nat \<Rightarrow> rat \<Rightarrow> string" where
  "frac_digits 0 r = []"
| "frac_digits (Suc fuel) r =
     (if r = 0 then []
      else (let d = \<lfloor>r * 10\<rfloor> in char_of (48 + nat d) # frac_digits fuel (r * 10 - of_int d)))"

text \<open>\<open>int(x)\<close> of a float: towards zero.\<close>

definition trunc :: "rat \<Rightarrow> int" where
  "trunc x = (if 0 \<le> x then \<lfloor>x\<rfloor> else \<lceil>x\<rceil>)"

text \<open>
  \<open>str\<close> of the float of a decimal literal that is not whole: the literal itself, since
  \<open>repr\<close> gives the shortest decimal that reads back as the same float and the literals
  of the catalog have three digits at most.
\<close>

definition show_decimal :: "rat \<Rightarrow> string" where
  "show_decimal x =
     (if x < 0 then ''-'' else []) @ show_int (trunc \<bar>x\<bar>) @ ''.'' @ frac_digits 17 (\<bar>x\<bar> - of_int (trunc \<bar>x\<bar>))"

text \<open>\<open>str(int(w)) if w == int(w) else str(w)\<close>, for a size \<open>w\<close> of the catalog.\<close>

definition size_str :: "rat \<Rightarrow> string" where
  "size_str w = (let v = round64 w in if v = of_int (trunc v) then show_int (trunc v) else show_decimal w)"

definition format_size :: "rat \<Rightarrow> rat \<Rightarrow> string" where
  "format_size w h = size_str w @ ''x'' @ size_str h"

subsection \<open>\<open>sorted(set(matches), key=...)\<close>\<close>

text \<open>\<open>x.split(sep)\<close> for a separator of one character.\<close>

fun split_on :: "char \<Rightarrow> string \<Rightarrow> string list" where
  "split_on sep [] = [[]]"
| "split_on sep (c # cs) =
     (if c = sep then [] # split_on sep cs
      else (case split_on sep cs of [] \<Rightarrow> [[c]] | p # ps \<Rightarrow> (c # p) # ps))"

text \<open>The key \<open>(float(x.split('x')[0]), float(x.split('x')[1]))\<close>, evaluated left to right.\<close>

definition sort_key_of :: "string \<Rightarrow> error + (pyfloat \<times> pyfloat)" where
  "sort_key_of x =
     (let parts = split_on (CHR ''x'') x in
      case py_float (parts ! 0) of
        Inl e \<Rightarrow> Inl e
      | Inr a \<Rightarrow>
          (if length parts < 2 then Inl IndexError
           else (case py_float (parts ! 1) of Inl e \<Rightarrow> Inl e | Inr b \<Rightarrow> Inr (a, b))))"

text \<open>\<open>a < b\<close> on pairs: decided by the first component where the two differ.\<close>

definition tuple_lt :: "pyfloat \<times> pyfloat \<Rightarrow> pyfloat \<times> pyfloat \<Rightarrow> bool" where
  "tuple_lt a b = (if feq (fst a) (fst b) then flt (snd a) (snd b) else flt (fst a) (fst b))"

text \<open>A stable sort: an element goes before the first one that is not less than it.\<close>

fun insert_by_key :: "(pyfloat \<times> pyfloat) \<times> string \<Rightarrow> ((pyfloat \<times> pyfloat) \<times> string) list
    \<Rightarrow> ((pyfloat \<times> pyfloat) \<times> string) list" where
  "insert_by_key kx [] = [kx]"
| "insert_by_key kx (ky # r) =
     (if tuple_lt (fst ky) (fst kx) then ky # insert_by_key kx r else kx # ky # r)"

text \<open>The keys are computed for all elements first; an exception in one ends the sort.\<close>

fun keyed :: "string list \<Rightarrow> error + ((pyfloat \<times> pyfloat) \<times> string) list" where
  "keyed [] = Inr []"
| "keyed (x # xs) =
     (case sort_key_of x of
        Inl e \<Rightarrow> Inl e
      | Inr k \<Rightarrow> (case keyed xs of Inl e \<Rightarrow> Inl e | Inr r \<Rightarrow> Inr ((k, x) # r)))"

definition sorted_by_size :: "string list \<Rightarrow> error + string list" where
  "sorted_by_size xs =
     (case keyed xs of Inl e \<Rightarrow> Inl e | Inr kxs \<Rightarrow> Inr (map snd (foldr insert_by_key kxs [])))"

subsection \<open>\<open>find_matching_print_sizes\<close>\<close>

text \<open>Lines 123 to 128: the test of one catalog size against the ratio of the artwork.\<close>

fun ratio_matches :: "pyfloat \<Rightarrow> pyfloat \<Rightarrow> rat \<times> rat \<Rightarrow> error + bool" where
  "ratio_matches artwork_ratio tolerance (print_w, print_h) =
     (case fdiv (to_float print_w) (to_float print_h) of
        Inl e \<Rightarrow> Inl e
      | Inr print_ratio \<Rightarrow>
          (case fdiv (fabs (fsub artwork_ratio print_ratio)) artwork_ratio of
             Inl e \<Rightarrow> Inl e
           | Inr ratio_diff \<Rightarrow> Inr (fle ratio_diff tolerance)))"

fun match_loop :: "pyfloat \<Rightarrow> pyfloat \<Rightarrow> (rat \<times> rat) list \<Rightarrow> string list \<Rightarrow> error + string list" where
  "match_loop artwork_ratio tolerance [] matches = Inr matches"
| "match_loop artwork_ratio tolerance ((print_w, print_h) # sizes) matches =
     (case ratio_matches artwork_ratio tolerance (print_w, print_h) of
        Inl e \<Rightarrow> Inl e
      | Inr ok \<Rightarrow>
          match_loop artwork_ratio tolerance sizes
            (if ok then matches @ [format_size print_w print_h] else matches))"

text \<open>
  The order in which a \<open>set\<close> is iterated is not fixed; \<open>remdups\<close> stands for it. The
  sort that follows makes the result independent of that order when the keys differ.
\<close>

definition find_matching_print_sizes :: "pyfloat \<Rightarrow> pyfloat \<Rightarrow> pyfloat \<Rightarrow> error + string list" where
  "find_matching_print_sizes artwork_w artwork_h tolerance =
     (case fdiv artwork_w artwork_h of
        Inl e \<Rightarrow> Inl e
      | Inr artwork_ratio \<Rightarrow>
          (case match_loop artwork_ratio tolerance ALL_VALID_SIZES [] of
             Inl e \<Rightarrow> Inl e
           | Inr matches \<Rightarrow> sorted_by_size (remdups matches)))"

text \<open>The default \<open>tolerance = 0.02\<close>.\<close>

definition default_tolerance :: pyfloat where
  "default_tolerance = to_float (2 / 100)"

section \<open>Notions used in the statements\<close>

subsection \<open>Field parser\<close>

text \<open>The first token of a line, as \<open>line.split()\<close> would give it.\<close>

definition first_token :: "string \<Rightarrow> string" where
  "first_token l = takeWhile (\<lambda>c. \<not> isspace c) (dropWhile isspace l)"

text \<open>
  A line that is not blank, is not indented, and whose first token is not made of the
  letters A-Z and a-z only.
\<close>

definition inert_line :: "string \<Rightarrow> bool" where
  "inert_line l = (strip l \<noteq> [] \<and> \<not> indented l \<and> \<not> list_all is_ascii_alpha (first_token l))"

text \<open>The content with every such line deleted.\<close>

definition delete_inert_lines :: "string \<Rightarrow> string" where
  "delete_inert_lines content =
     concat (filter (\<lambda>l. \<not> inert_line l) (readlines (universal_newlines content)))"

text \<open>What \<open>readlines\<close> yields: no line is empty, and a newline only ends a line.\<close>

fun lines_ok :: "string list \<Rightarrow> bool" where
  "lines_ok [] = True"
| "lines_ok [l] = (l \<noteq> [] \<and> NL \<notin> set (butlast l))"
| "lines_ok (l # m # ms) = (l \<noteq> [] \<and> NL \<notin> set (butlast l) \<and> last l = NL \<and> lines_ok (m # ms))"

text \<open>An entry of the dictionary as the parser may store it, and the invariant of its loop.\<close>

definition good_entry :: "string \<times> string \<Rightarrow> bool" where
  "good_entry kv =
     ((\<exists>token. token \<noteq> [] \<and> list_all is_ascii_alpha token \<and> fst kv = lower token)
      \<and> (snd kv = [] \<or> (\<not> isspace (hd (snd kv)) \<and> \<not> isspace (last (snd kv)))))"

definition pinv :: "pstate \<Rightarrow> bool" where
  "pinv st = (list_all good_entry (artwork st) \<and>
     (case current_field st of None \<Rightarrow> True | Some f \<Rightarrow> f \<noteq> [] \<and> list_all is_ascii_alpha f))"

subsection \<open>Title check\<close>

text \<open>\<open>text.split('\n')\<close>\<close>

fun split_nl :: "string \<Rightarrow> string list" where
  "split_nl [] = [[]]"
| "split_nl (c # cs) =
     (if c = NL then [] # split_nl cs
      else (case split_nl cs of [] \<Rightarrow> [[c]] | l # ls \<Rightarrow> (c # l) # ls))"

text \<open>
  The condition of the specification, in its words: a line that is the word Title and
  trailing white space only, followed at any distance by a line that begins with a tab or a
  space and is not blank.
\<close>

definition claimed_title_line :: "string \<Rightarrow> bool" where
  "claimed_title_line l = (rstrip l = ''Title'')"

definition claimed_content_line :: "string \<Rightarrow> bool" where
  "claimed_content_line l = (l \<noteq> [] \<and> sp_or_tab (hd l) \<and> strip l \<noteq> [])"

fun claimed_title_condition :: "string list \<Rightarrow> bool" where
  "claimed_title_condition [] = False"
| "claimed_title_condition (l # ls) =
     ((claimed_title_line l \<and> list_ex claimed_content_line ls) \<or> claimed_title_condition ls)"

subsection \<open>Two directories\<close>

definition txt_entry :: "string \<Rightarrow> string \<Rightarrow> entry" where
  "txt_entry name raw = \<lparr>ename = name, is_file = True, etext = Some raw, is_image = False\<rparr>"

definition image_entry :: "string \<Rightarrow> entry" where
  "image_entry name = \<lparr>ename = name, is_file = True, etext = None, is_image = True\<rparr>"

text \<open>
  \<open>1-Foo\<close> holds its description and the image \<open>LindseyAyres_Bar.jpg\<close>; \<open>2-Bar\<close>
  holds its description and the image \<open>sketch.png\<close>.
\<close>

definition dir_foo :: art_dir where
  "dir_foo = \<lparr>dname = ''1-Foo'', entries =
     [txt_entry ''1-Foo.txt'' (''Title'' @ [NL, TAB] @ ''Foo'' @ [NL]), image_entry ''LindseyAyres_Bar.jpg'']\<rparr>"

definition dir_bar :: art_dir where
  "dir_bar = \<lparr>dname = ''2-Bar'', entries =
     [txt_entry ''2-Bar.txt'' (''Title'' @ [NL, TAB] @ ''Bar'' @ [NL]), image_entry ''sketch.png'']\<rparr>"

subsection \<open>Ratio matcher\<close>

text \<open>The relative error of the specification, in exact arithmetic.\<close>

definition rel_error :: "rat \<Rightarrow> rat \<Rightarrow> rat" where
  "rel_error query_ratio catalog_ratio = \<bar>query_ratio - catalog_ratio\<bar> / query_ratio"

text \<open>The catalog in eight parts of eighteen sizes, for the evaluations below.\<close>

definition catalog_part :: "nat \<Rightarrow> (rat \<times> rat) list" where
  "catalog_part i = take 18 (drop (18 * i) ALL_VALID_SIZES)"

text \<open>The sizes of a list that pass the test, in order, or the first error of the test.\<close>

fun accepted :: "pyfloat \<Rightarrow> pyfloat \<Rightarrow> (rat \<times> rat) list \<Rightarrow> error + (rat \<times> rat) list" where
  "accepted artwork_ratio tolerance [] = Inr []"
| "accepted artwork_ratio tolerance (s # ss) =
     (case ratio_matches artwork_ratio tolerance s of
        Inl e \<Rightarrow> Inl e
      | Inr ok \<Rightarrow>
          (case accepted artwork_ratio tolerance ss of
             Inl e \<Rightarrow> Inl e
           | Inr r \<Rightarrow> Inr (if ok then s # r else r)))"

text \<open>What the matcher returns for the query 1200 by 1800.\<close>

definition matches_1200_1800 :: "string list" where
  "matches_1200_1800 = [''4x6'', ''8x12'', ''12x18'', ''16x24'', ''18x27'', ''20x30'', ''23.6x35.4'',
     ''24x36'', ''27x40'', ''32x48'', ''36x54'', ''40x60'']"

text \<open>The sizes of the catalog as \<open>format_size\<close> writes them, in the order of the catalog.\<close>

definition catalog_formats :: "string list" where
  "catalog_formats =
    [''6x6'', ''8x8'', ''10x10'', ''12x12'', ''14x14'', ''16x16'', ''18x18'', ''20x20'', ''23x23'',
     ''24x24'', ''28x28'', ''30x30'', ''32x32'', ''36x36'', ''40x40'', ''4x6'', ''8x12'', ''12x18'',
     ''16x24'', ''20x30'', ''24x36'', ''32x48'', ''36x54'', ''40x60'', ''18x27'', ''6x8'', ''9x12'',
     ''12x16'', ''18x24'', ''24x32'', ''30x40'', ''36x48'', ''8x10'', ''12x15'', ''16x20'', ''20x25'',
     ''24x30'', ''36x45'', ''40x50'', ''3x7'', ''4x10'', ''5x7'', ''5x10'', ''5x12'', ''6.8x16'',
     ''6x12'', ''8x20'', ''8x24'', ''8x28'', ''8.5x11'', ''9x11'', ''9x18'', ''10x13'', ''10x17'',
     ''10x20'', ''10x24'', ''10x30'', ''10x36'', ''11x14'', ''11x17'', ''11x22'', ''12x14'', ''12x20'',
     ''12x24'', ''12x30'', ''12x36'', ''13x17'', ''13x19'', ''14x18'', ''14x20'', ''14x23'', ''14x24'',
     ''14x28'', ''14x36'', ''14x50'', ''15x30'', ''16x22'', ''16x27'', ''16x30'', ''16x32'', ''16x36'',
     ''16x37'', ''16x48'', ''17x20'', ''17x23'', ''18x20'', ''18x22'', ''18x26'', ''18x30'', ''18x36'',
     ''18x43'', ''18x45'', ''18x47'', ''18x50'', ''18x54'', ''19x27'', ''20x24'', ''20x26'', ''20x28'',
     ''20x33'', ''20x36'', ''21x30'', ''20x40'', ''20x60'', ''22x28'', ''22x30'', ''22x34'', ''22x36'',
     ''24x28'', ''24x38'', ''24x40'', ''24x45'', ''24x48'', ''24x56'', ''24x60'', ''24x65'', ''24x90'',
     ''26x34'', ''26x40'', ''27x30'', ''27x40'', ''28x36'', ''28x38'', ''28x40'', ''28x48'', ''30x50'',
     ''30x60'', ''30x75'', ''32x42'', ''32x44'', ''32x54'', ''36x40'', ''36x50'', ''36x60'', ''36x70'',
     ''5.1x7.1'', ''7.9x9.8'', ''17.7x23.6'', ''23.6x35.4'', ''39.4x55.1'']"

chapter \<open>Properties\<close>

section \<open>Strings\<close>

lemma alpha_not_space: "is_ascii_alpha c \<Longrightarrow> \<not> isspace c"
  by (auto simp: is_ascii_alpha_def isspace_def Let_def)

lemma lower_alpha: "is_ascii_alpha c \<Longrightarrow> is_ascii_lower (lower_char c)"
  by (auto simp: is_ascii_alpha_def is_ascii_lower_def lower_char_def Let_def)

lemma rstrip_decomp: "s = rstrip s @ rev (takeWhile isspace (rev s))"
proof -
  have "rev s = takeWhile isspace (rev s) @ dropWhile isspace (rev s)" by simp
  then have "rev (rev s) = rev (takeWhile isspace (rev s) @ dropWhile isspace (rev s))" by simp
  then show ?thesis unfolding rstrip_def by (simp del: takeWhile_dropWhile_id)
qed

lemma rstrip_last: "rstrip s \<noteq> [] \<Longrightarrow> \<not> isspace (last (rstrip s))"
  unfolding rstrip_def by (simp add: last_rev hd_dropWhile)

lemma rstrip_hd: "rstrip s \<noteq> [] \<Longrightarrow> hd (rstrip s) = hd s"
  using rstrip_decomp[of s] by (metis hd_append2)

lemma strip_clean: "strip s = [] \<or> (\<not> isspace (hd (strip s)) \<and> \<not> isspace (last (strip s)))"
proof (cases "strip s = []")
  case True then show ?thesis by simp
next
  case False
  then have ne: "rstrip (lstrip s) \<noteq> []" by (simp add: strip_def)
  then have "lstrip s \<noteq> []" by (auto simp: rstrip_def)
  then have "\<not> isspace (hd (lstrip s))" unfolding lstrip_def by (simp add: hd_dropWhile)
  with ne show ?thesis by (simp add: strip_def rstrip_hd rstrip_last)
qed

lemma startswith_rstrip: "startswith (rstrip l) p \<Longrightarrow> startswith l p"
proof -
  assume a: "startswith (rstrip l) p"
  obtain w where w: "l = rstrip l @ w" using rstrip_decomp by blast
  from a have "length p \<le> length (rstrip l)"
    unfolding startswith_def by (metis length_take min.cobounded2 nat_le_linear take_all_iff order.trans)
  with a w show ?thesis unfolding startswith_def by (metis take_append diff_is_0_eq take_0 append_Nil2)
qed

lemma rstrip_rstrip: "rstrip (rstrip l) = rstrip l"
proof (cases "rstrip l = []")
  case True then show ?thesis by (simp add: rstrip_def)
next
  case False
  then have "\<not> isspace (last (rstrip l))" by (rule rstrip_last)
  then have "\<not> isspace (hd (rev (rstrip l)))" using False by (simp add: hd_rev)
  then have "dropWhile isspace (rev (rstrip l)) = rev (rstrip l)"
    using False by (cases "rev (rstrip l)") auto
  then show ?thesis by (simp add: rstrip_def[of "rstrip l"])
qed

lemma rstrip_Nil_iff: "rstrip s = [] \<longleftrightarrow> list_all isspace s"
  by (auto simp: rstrip_def list_all_iff dropWhile_eq_Nil_conv)

lemma strip_Nil_iff: "strip s = [] \<longleftrightarrow> list_all isspace s"
proof -
  have "strip s = [] \<longleftrightarrow> list_all isspace (dropWhile isspace s)"
    by (simp add: strip_def lstrip_def rstrip_Nil_iff)
  also have "\<dots> \<longleftrightarrow> list_all isspace s"
  proof
    assume "list_all isspace (dropWhile isspace s)"
    then have "list_all isspace (takeWhile isspace s @ dropWhile isspace s)"
      unfolding list_all_append by (auto simp: list_all_iff dest: set_takeWhileD)
    then show "list_all isspace s" by simp
  next
    assume "list_all isspace s"
    then show "list_all isspace (dropWhile isspace s)" by (auto simp: list_all_iff dest: set_dropWhileD)
  qed
  finally show ?thesis .
qed

lemma rstrip_all_space_iff: "list_all isspace (rstrip l) \<longleftrightarrow> list_all isspace l"
  by (metis rstrip_Nil_iff rstrip_rstrip)

lemma universal_newlines_no_CR: "CR \<notin> set (universal_newlines s)"
  by (induction s rule: universal_newlines.induct) auto

lemma universal_newlines_id: "CR \<notin> set s \<Longrightarrow> universal_newlines s = s"
  by (induction s rule: universal_newlines.induct) auto

lemma concat_readlines: "concat (readlines s) = s"
  by (induction s) (auto split: list.splits)

lemma lines_ok_readlines: "lines_ok (readlines s)"
proof (induction s)
  case Nil then show ?case by simp
next
  case (Cons c cs)
  show ?case
  proof (cases "c = NL")
    case True
    with Cons show ?thesis by (cases "readlines cs") auto
  next
    case False
    show ?thesis
    proof (cases "readlines cs")
      case Nil with False show ?thesis by simp
    next
      case (Cons l ls)
      with False Cons.IH show ?thesis
        by (cases ls) (auto simp: butlast_def split: if_splits)
    qed
  qed
qed

lemma lines_ok_filter: "lines_ok ls \<Longrightarrow> lines_ok (filter P ls)"
proof (induction ls rule: lines_ok.induct)
  case 1 then show ?case by simp
next
  case (2 l) then show ?case by simp
next
  case (3 l m ms)
  then have ih: "lines_ok (filter P (m # ms))" by simp
  show ?case
  proof (cases "P l")
    case False with ih show ?thesis by simp
  next
    case True
    with 3 ih show ?thesis by (cases "filter P (m # ms)") auto
  qed
qed

lemma readlines_body: "NL \<notin> set b \<Longrightarrow> readlines (b @ NL # r) = (b @ [NL]) # readlines r"
  by (induction b) auto

lemma readlines_partial: "l \<noteq> [] \<Longrightarrow> NL \<notin> set (butlast l) \<Longrightarrow> readlines l = [l]"
proof (induction l)
  case Nil then show ?case by simp
next
  case (Cons c cs)
  show ?case
  proof (cases cs)
    case Nil then show ?thesis by simp
  next
    case (Cons d ds)
    with Cons.prems Cons.IH show ?thesis by auto
  qed
qed

lemma readlines_concat: "lines_ok ls \<Longrightarrow> readlines (concat ls) = ls"
proof (induction ls rule: lines_ok.induct)
  case 1 then show ?case by simp
next
  case (2 l) then show ?case by (simp add: readlines_partial)
next
  case (3 l m ms)
  then have l: "l = butlast l @ [NL]" "NL \<notin> set (butlast l)"
    using append_butlast_last_id[of l] by auto
  have "readlines (concat (l # m # ms)) = readlines (butlast l @ NL # concat (m # ms))"
    by (subst l(1)) simp
  also have "\<dots> = (butlast l @ [NL]) # readlines (concat (m # ms))"
    using l(2) by (rule readlines_body)
  also have "\<dots> = l # m # ms" using 3 l(1) by simp
  finally show ?case .
qed

section \<open>Field parser\<close>

text \<open>
  C3: parsing the text
  \<open>"Title\n\tFoo Bar\nArtDescription\n\tHello\n\tWorld\n"\<close> gives exactly the dictionary
  with \<open>title\<close> mapped to \<open>Foo Bar\<close> and \<open>artdescription\<close> mapped to \<open>Hello\nWorld\<close>.
\<close>

theorem C3_parse_example:
  "parse_artwork_file (''Title'' @ [NL, TAB] @ ''Foo Bar'' @ [NL] @ ''ArtDescription'' @ [NL, TAB]
      @ ''Hello'' @ [NL, TAB] @ ''World'' @ [NL])
   = [(''title'', ''Foo Bar''), (''artdescription'', ''Hello'' @ [NL] @ ''World'')]"
  by code_simp

subsection \<open>Keys and values\<close>

lemma field_match_Some:
  "field_match line = Some (g1, g2) \<Longrightarrow> g1 \<noteq> [] \<and> list_all is_ascii_alpha g1"
  by (auto simp: field_match_def Let_def list_all_iff split: if_splits dest: set_takeWhileD)

lemma set_update_alist: "set (AList.update k v al) \<subseteq> insert (k, v) (set al)"
  by (induction al) auto

lemma save_field_good:
  assumes "pinv st" "truthy (current_field st)"
  shows "list_all good_entry (save_field st)"
proof -
  from assms obtain f where f: "current_field st = Some f" "f \<noteq> []" "list_all is_ascii_alpha f"
    by (auto simp: pinv_def truthy_def split: option.splits)
  have "good_entry (lower f, strip (join [NL] (field_content st)))"
    using f strip_clean[of "join [NL] (field_content st)"]
    by (auto simp: good_entry_def)
  moreover have "list_all good_entry (artwork st)" using assms by (simp add: pinv_def)
  ultimately show ?thesis
    using set_update_alist[of "lower f" "strip (join [NL] (field_content st))" "artwork st"] f
    by (auto simp: save_field_def list_all_iff)
qed

lemma parse_line_pinv: "pinv st \<Longrightarrow> pinv (parse_line st raw)"
proof -
  assume inv: "pinv st"
  show ?thesis
  proof (cases "field_match (rstrip raw)")
    case None
    with inv show ?thesis by (auto simp: parse_line_def Let_def pinv_def)
  next
    case (Some p)
    obtain g1 g2 where p: "p = (g1, g2)" by (cases p)
    from Some p have g: "g1 \<noteq> []" "list_all is_ascii_alpha g1"
      using field_match_Some by blast+
    show ?thesis
    proof (cases "truthy (current_field st)")
      case True
      from save_field_good[OF inv True] inv g Some p True show ?thesis
        by (auto simp: parse_line_def Let_def pinv_def)
    next
      case False
      with inv g Some p show ?thesis
        by (auto simp: parse_line_def Let_def pinv_def)
    qed
  qed
qed

lemma foldl_pinv: "pinv st \<Longrightarrow> pinv (foldl parse_line st ls)"
  by (induction ls arbitrary: st) (auto simp: parse_line_pinv)

lemma parse_lines_good: "list_all good_entry (parse_lines ls)"
proof -
  have "pinv parse_init" by (simp add: pinv_def parse_init_def)
  then have inv: "pinv (foldl parse_line parse_init ls)" by (rule foldl_pinv)
  show ?thesis
    using inv save_field_good[OF inv]
    by (auto simp: parse_lines_def parse_finish_def pinv_def)
qed

lemma lower_token_is_lower: "list_all is_ascii_alpha token \<Longrightarrow> list_all is_ascii_lower (lower token)"
  by (auto simp: lower_def list_all_iff lower_alpha)

text \<open>
  C10: for every content the parser returns (it is a total function: no input makes it
  fail), and in the dictionary it returns every key is the lower-casing of a non-empty
  token of letters, hence non-empty and made of the letters a-z, and every value has
  neither leading nor trailing white space.
\<close>

theorem C10_keys_and_values:
  "\<forall>(k, v) \<in> set (parse_artwork_file content).
     k \<noteq> [] \<and> list_all is_ascii_lower k
     \<and> (\<exists>token. token \<noteq> [] \<and> list_all is_ascii_alpha token \<and> k = lower token)
     \<and> (v = [] \<or> (\<not> isspace (hd v) \<and> \<not> isspace (last v)))"
proof -
  have "list_all good_entry (parse_artwork_file content)"
    unfolding parse_artwork_file_def by (rule parse_lines_good)
  then have g: "\<And>k v. (k, v) \<in> set (parse_artwork_file content) \<Longrightarrow> good_entry (k, v)"
    by (simp add: list_all_iff)
  show ?thesis
  proof (intro ballI, clarify)
    fix k v assume "(k, v) \<in> set (parse_artwork_file content)"
    then have "good_entry (k, v)" by (rule g)
    then obtain token where t: "token \<noteq> []" "list_all is_ascii_alpha token" "k = lower token"
      and v: "v = [] \<or> (\<not> isspace (hd v) \<and> \<not> isspace (last v))"
      by (auto simp: good_entry_def)
    from t have "k \<noteq> []" by (simp add: lower_def)
    moreover from t have "list_all is_ascii_lower k" by (simp add: lower_token_is_lower)
    ultimately show "k \<noteq> [] \<and> list_all is_ascii_lower k
       \<and> (\<exists>token. token \<noteq> [] \<and> list_all is_ascii_alpha token \<and> k = lower token)
       \<and> (v = [] \<or> (\<not> isspace (hd v) \<and> \<not> isspace (last v)))"
      using t v by blast
  qed
qed

theorem C10_keys_and_values_witness:
  "(''price'', ''$5'') \<in> set (parse_artwork_file (''  '' @ [NL] @ ''Price  $5 '' @ [NL]))
   \<and> ''price'' \<noteq> [] \<and> list_all is_ascii_lower ''price''
   \<and> \<not> isspace (hd ''$5'') \<and> \<not> isspace (last ''$5'')"
proof -
  let ?c = "''  '' @ [NL] @ ''Price  $5 '' @ [NL]"
  have m: "(''price'', ''$5'') \<in> set (parse_artwork_file ?c)" by code_simp
  from C10_keys_and_values[of ?c] m
  have "''price'' \<noteq> [] \<and> list_all is_ascii_lower ''price''
     \<and> (''$5'' = [] \<or> (\<not> isspace (hd ''$5'') \<and> \<not> isspace (last ''$5'')))" by blast
  with m show ?thesis by simp
qed

subsection \<open>Lines without effect\<close>

lemma field_match_first_token:
  assumes "field_match (rstrip l) = Some (g1, g2)"
  shows "first_token l = g1"
proof -
  let ?line = "rstrip l"
  obtain w where w: "l = ?line @ w" "list_all isspace w"
    using rstrip_decomp[of l] by (metis list_all_iff set_rev set_takeWhileD)
  from assms have g1: "g1 = takeWhile is_ascii_alpha ?line" "g1 \<noteq> []"
    by (auto simp: field_match_def Let_def split: if_splits)
  define rest where "rest = dropWhile is_ascii_alpha ?line"
  have line: "?line = g1 @ rest" by (simp add: g1 rest_def)
  from assms have rest: "rest = [] \<or> isspace (hd rest)"
    by (auto simp: field_match_def Let_def rest_def isspace_def split: if_splits)
  have alpha: "\<forall>c \<in> set g1. \<not> isspace c"
    using g1 by (auto dest: set_takeWhileD alpha_not_space)
  have l: "l = g1 @ (rest @ w)" using w line by simp
  have stop: "rest @ w = [] \<or> isspace (hd (rest @ w))"
    using rest w by (cases rest; cases w) (auto)
  obtain c cs where c: "g1 = c # cs" using g1(2) by (cases g1) auto
  then have "\<not> isspace c" using alpha by simp
  moreover have "l = c # (cs @ rest @ w)" by (subst l) (simp add: c)
  ultimately have "dropWhile isspace l = l" by (metis dropWhile.simps(2))
  moreover have "takeWhile (\<lambda>c. \<not> isspace c) (g1 @ (rest @ w)) = g1"
    using alpha stop by (cases "rest @ w") (auto simp: takeWhile_append2 simp del: append_assoc)
  ultimately show ?thesis by (metis l first_token_def)
qed

lemma inert_no_effect: "inert_line l \<Longrightarrow> parse_line st l = st"
proof -
  assume i: "inert_line l"
  then have nb: "\<not> list_all isspace l" by (simp add: inert_line_def strip_Nil_iff)
  then have 1: "strip (rstrip l) \<noteq> []" by (simp add: strip_Nil_iff rstrip_all_space_iff)
  from i have 2: "\<not> startswith (rstrip l) [TAB]" "\<not> startswith (rstrip l) ''    ''"
    using startswith_rstrip by (auto simp: inert_line_def indented_def)
  have 3: "field_match (rstrip l) = None"
  proof (cases "field_match (rstrip l)")
    case None then show ?thesis .
  next
    case (Some p)
    obtain g1 g2 where p: "p = (g1, g2)" by (cases p)
    with Some have "first_token l = g1" "list_all is_ascii_alpha g1"
      using field_match_first_token field_match_Some by blast+
    with i show ?thesis by (simp add: inert_line_def)
  qed
  show ?thesis using 1 2 3 by (simp add: parse_line_def Let_def)
qed

lemma foldl_filter_inert:
  "foldl parse_line st (filter (\<lambda>l. \<not> inert_line l) ls) = foldl parse_line st ls"
  by (induction ls arbitrary: st) (auto simp: inert_no_effect)

text \<open>
  C9: a line that is not blank, is not indented and whose first token is not made of
  letters only leaves the state of the parser as it is (it opens no field, adds nothing to
  the content of the current field and does not save it), and the parser returns the same
  dictionary on the content with every such line deleted.
\<close>

theorem C9_inert_lines:
  "(\<forall>st l. inert_line l \<longrightarrow> parse_line st l = st)
   \<and> parse_artwork_file (delete_inert_lines content) = parse_artwork_file content"
proof
  show "\<forall>st l. inert_line l \<longrightarrow> parse_line st l = st" by (simp add: inert_no_effect)
next
  let ?ls = "readlines (universal_newlines content)"
  let ?keep = "filter (\<lambda>l. \<not> inert_line l) ?ls"
  have "set (concat ?keep) \<subseteq> set (concat ?ls)" by auto
  then have "CR \<notin> set (concat ?keep)"
    using universal_newlines_no_CR[of content] by (auto simp: concat_readlines)
  then have "universal_newlines (concat ?keep) = concat ?keep" by (rule universal_newlines_id)
  moreover have "readlines (concat ?keep) = ?keep"
    by (rule readlines_concat) (rule lines_ok_filter, rule lines_ok_readlines)
  ultimately show "parse_artwork_file (delete_inert_lines content) = parse_artwork_file content"
    by (simp add: parse_artwork_file_def delete_inert_lines_def parse_lines_def foldl_filter_inert)
qed

theorem C9_inert_lines_witness:
  "inert_line (''12 monkeys'' @ [NL])
   \<and> delete_inert_lines (''Title'' @ [NL, TAB] @ ''Foo'' @ [NL] @ ''12 monkeys'' @ [NL, TAB] @ ''Bar'' @ [NL])
       = ''Title'' @ [NL, TAB] @ ''Foo'' @ [NL, TAB] @ ''Bar'' @ [NL]
   \<and> parse_artwork_file (''Title'' @ [NL, TAB] @ ''Foo'' @ [NL, TAB] @ ''Bar'' @ [NL])
       = parse_artwork_file (''Title'' @ [NL, TAB] @ ''Foo'' @ [NL] @ ''12 monkeys'' @ [NL, TAB] @ ''Bar'' @ [NL])
   \<and> parse_line \<lparr>artwork = [], current_field = Some ''Title'', field_content = [''Foo'']\<rparr> (''12 monkeys'' @ [NL])
       = \<lparr>artwork = [], current_field = Some ''Title'', field_content = [''Foo'']\<rparr>"
proof -
  let ?c = "''Title'' @ [NL, TAB] @ ''Foo'' @ [NL] @ ''12 monkeys'' @ [NL, TAB] @ ''Bar'' @ [NL]"
  have i: "inert_line (''12 monkeys'' @ [NL])" by code_simp
  have d: "delete_inert_lines ?c = ''Title'' @ [NL, TAB] @ ''Foo'' @ [NL, TAB] @ ''Bar'' @ [NL]"
    by code_simp
  from C9_inert_lines[of ?c]
  have a: "\<forall>st l. inert_line l \<longrightarrow> parse_line st l = st"
    and b: "parse_artwork_file (delete_inert_lines ?c) = parse_artwork_file ?c" by blast+
  from a i have "parse_line \<lparr>artwork = [], current_field = Some ''Title'', field_content = [''Foo'']\<rparr>
      (''12 monkeys'' @ [NL]) = \<lparr>artwork = [], current_field = Some ''Title'', field_content = [''Foo'']\<rparr>"
    by blast
  with i d b show ?thesis by (simp only: simp_thms)
qed

section \<open>Directory validator\<close>

subsection \<open>The matcher\<close>

lemma re_star_skip: "list_all p ws \<Longrightarrow> re_star p k s = Some v \<Longrightarrow> re_star p k (ws @ s) = Some v"
  by (induction ws) auto

lemma re_star_Some: "re_star p k s = Some g \<Longrightarrow> \<exists>ws r. s = ws @ r \<and> list_all p ws \<and> k r = Some g"
proof (induction s)
  case Nil then show ?case by auto
next
  case (Cons c cs)
  show ?case
  proof (cases "p c \<and> re_star p k cs = Some g")
    case True
    with Cons.IH obtain ws r where "cs = ws @ r" "list_all p ws" "k r = Some g" by blast
    with True have "c # cs = (c # ws) @ r \<and> list_all p (c # ws) \<and> k r = Some g" by simp
    then show ?thesis by blast
  next
    case False
    with Cons.prems have "k (c # cs) = Some g" by (auto split: if_splits option.splits)
    then have "c # cs = [] @ (c # cs) \<and> list_all p [] \<and> k (c # cs) = Some g" by simp
    then show ?thesis by blast
  qed
qed

lemma re_search_Some: "re_search m s = Some g \<Longrightarrow> \<exists>pre r. s = pre @ r \<and> m r = Some g"
proof (induction s)
  case Nil then show ?case by auto
next
  case (Cons c cs)
  show ?case
  proof (cases "m (c # cs)")
    case (Some a)
    with Cons.prems have "m (c # cs) = Some g" by simp
    then show ?thesis by (metis append_Nil)
  next
    case None
    with Cons.prems have "re_search m cs = Some g" by simp
    with Cons.IH obtain pre r where "cs = pre @ r" "m r = Some g" by blast
    then have "c # cs = (c # pre) @ r \<and> m r = Some g" by simp
    then show ?thesis by blast
  qed
qed

lemma re_search_skip:
  "\<forall>i < length pre. m (drop i (pre @ s)) = None \<Longrightarrow> re_search m (pre @ s) = re_search m s"
proof (induction pre)
  case Nil then show ?case by simp
next
  case (Cons c pre)
  from Cons.prems have "m (c # pre @ s) = None" by (metis drop0 append_Cons length_greater_0_conv list.distinct(1))
  moreover have "\<forall>i < length pre. m (drop i (pre @ s)) = None"
  proof (intro allI impI)
    fix i assume "i < length pre"
    then have "Suc i < length (c # pre)" by simp
    with Cons.prems have "m (drop (Suc i) ((c # pre) @ s)) = None" by blast
    then show "m (drop i (pre @ s)) = None" by simp
  qed
  ultimately show ?case using Cons.IH by simp
qed

subsection \<open>The title pattern\<close>

lemma capture_line_content:
  assumes "content \<noteq> []" "NL \<notin> set content" "rest = [] \<or> hd rest = NL"
  shows "capture_line (content @ rest) = Some content"
proof -
  have "takeWhile (\<lambda>c. c \<noteq> NL) (content @ rest) = content"
    using assms by (cases rest) (auto simp: takeWhile_tail)
  with assms(1) show ?thesis by (simp add: capture_line_def)
qed

lemma not_space_not_NL: "\<not> isspace c \<Longrightarrow> c \<noteq> NL"
  by (auto simp: isspace_def)

lemma sp_or_tab_space: "sp_or_tab c \<Longrightarrow> isspace c \<and> c \<noteq> NL"
  by (auto simp: sp_or_tab_def isspace_def)

lemma re_star_indent_fails:
  assumes "list_all sp_or_tab ind" "content \<noteq> []" "\<not> isspace (hd content)"
  shows "re_star isspace (re_newline k) (ind @ content @ rest) = None"
  using assms(1)
proof (induction ind)
  case Nil
  from assms obtain c cs where c: "content = c # cs" "\<not> isspace c" by (cases content) auto
  then show ?case by (simp add: re_newline_def not_space_not_NL)
next
  case (Cons i ind)
  then show ?case using sp_or_tab_space[of i] by (simp add: re_newline_def)
qed

lemma title_body:
  assumes ws: "list_all isspace ws"
    and ind: "ind \<noteq> []" "list_all sp_or_tab ind"
    and content: "content \<noteq> []" "\<not> isspace (hd content)" "NL \<notin> set content"
    and rest: "rest = [] \<or> hd rest = NL"
  shows "title_match_at (''Title'' @ ws @ [NL] @ ind @ content @ rest) = Some content"
proof -
  let ?K = "re_newline (re_plus sp_or_tab capture_line)"
  obtain c cs where c: "content = c # cs" "\<not> isspace c" using content by (cases content) auto
  then have nst: "\<not> sp_or_tab c" using sp_or_tab_space by blast
  have cap: "capture_line (content @ rest) = Some content"
    using content rest by (intro capture_line_content) auto
  have "re_star sp_or_tab capture_line (content @ rest) = Some content"
    using cap nst by (simp add: c)
  then have s1: "\<And>ind'. list_all sp_or_tab ind' \<Longrightarrow>
      re_star sp_or_tab capture_line (ind' @ content @ rest) = Some content"
    by (rule re_star_skip[rotated])
  obtain i ind' where i: "ind = i # ind'" using ind by (cases ind) auto
  have "re_plus sp_or_tab capture_line (ind @ content @ rest) = Some content"
    using ind(2) s1[of ind'] by (simp add: re_plus_def i)
  then have k: "?K (NL # ind @ content @ rest) = Some content" by (simp add: re_newline_def)
  have "re_star isspace ?K (ind @ content @ rest) = None"
    using ind(2) content(1,2) by (rule re_star_indent_fails)
  with k have "re_star isspace ?K (NL # ind @ content @ rest) = Some content"
    by (simp add: isspace_def)
  with ws have "re_star isspace ?K (ws @ NL # ind @ content @ rest) = Some content"
    by (rule re_star_skip)
  then show ?thesis by (simp add: title_match_at_def re_literal_def startswith_def)
qed

lemma title_match_at_Some:
  assumes "title_match_at r = Some g"
  shows "\<exists>ws ind rest. r = ''Title'' @ ws @ [NL] @ ind @ g @ rest \<and> list_all isspace ws
      \<and> ind \<noteq> [] \<and> list_all sp_or_tab ind \<and> g \<noteq> [] \<and> NL \<notin> set g \<and> (rest = [] \<or> hd rest = NL)"
proof -
  let ?K = "re_newline (re_plus sp_or_tab capture_line)"
  define r1 where "r1 = drop (length ''Title'') r"
  from assms have r: "take (length ''Title'') r = ''Title''" and st: "re_star isspace ?K r1 = Some g"
    unfolding title_match_at_def re_literal_def startswith_def r1_def by (metis option.distinct(1))+
  from r have r': "r = ''Title'' @ r1" unfolding r1_def by (metis append_take_drop_id)
  from re_star_Some[OF st] obtain ws r2 where 1: "r1 = ws @ r2" "list_all isspace ws" "?K r2 = Some g"
    by blast
  from 1(3) obtain r3 where 2: "r2 = NL # r3" "re_plus sp_or_tab capture_line r3 = Some g"
    by (cases r2) (auto simp: re_newline_def split: if_splits)
  from 2(2) obtain i r4 where 3: "r3 = i # r4" "sp_or_tab i" "re_star sp_or_tab capture_line r4 = Some g"
    by (cases r3) (auto simp: re_plus_def split: if_splits)
  from re_star_Some[OF 3(3)] obtain ind' r5 where 4: "r4 = ind' @ r5" "list_all sp_or_tab ind'"
      "capture_line r5 = Some g" by blast
  from 4(3) have g: "g = takeWhile (\<lambda>c. c \<noteq> NL) r5" "g \<noteq> []"
    by (auto simp: capture_line_def Let_def split: if_splits)
  define rest where "rest = dropWhile (\<lambda>c. c \<noteq> NL) r5"
  have r5: "r5 = g @ rest" by (simp add: g rest_def)
  have rest: "rest = [] \<or> hd rest = NL"
    unfolding rest_def using hd_dropWhile[of "\<lambda>c. c \<noteq> NL" r5] by auto
  have nl: "NL \<notin> set g" unfolding g by (auto dest: set_takeWhileD)
  have "r = ''Title'' @ ws @ [NL] @ (i # ind') @ g @ rest"
    by (subst r') (simp add: 1 2 3 4 r5)
  with 1(2) 3(2) 4(2) g(2) nl rest show ?thesis
    by (intro exI[of _ ws] exI[of _ "i # ind'"] exI[of _ rest]) simp
qed

text \<open>
  C1, as the code has it. First part: when the first occurrence of Title in the text
  starts a line and is followed by white space only (trailing blanks, blank lines), then a
  newline, one or more tabs or spaces and a rest of the line that starts with a character
  that is not white space, the check succeeds and the title is that rest, trimmed. Second
  part: whenever the check succeeds, the title is not empty and is the trimmed rest of a
  line that follows an occurrence of Title, white space only, a newline and one or more
  tabs or spaces; so a line with other content between the header and the indented line
  makes the check fail for that header.
\<close>

theorem C1_title_check:
  "(text = pre @ ''Title'' @ ws @ [NL] @ ind @ content @ rest
      \<and> (pre = [] \<or> last pre = NL)
      \<and> (\<forall>i < length pre. \<not> startswith (drop i text) ''Title'')
      \<and> list_all isspace ws \<and> ind \<noteq> [] \<and> list_all sp_or_tab ind
      \<and> content \<noteq> [] \<and> \<not> isspace (hd content) \<and> NL \<notin> set content
      \<and> (rest = [] \<or> hd rest = NL)
    \<longrightarrow> find_title text = Some (strip content))
   \<and> (\<forall>t. find_title text = Some t \<longrightarrow>
        t \<noteq> [] \<and> (\<exists>before ws ind g rest.
           text = before @ ''Title'' @ ws @ [NL] @ ind @ g @ rest
           \<and> list_all isspace ws \<and> ind \<noteq> [] \<and> list_all sp_or_tab ind
           \<and> NL \<notin> set g \<and> (rest = [] \<or> hd rest = NL) \<and> t = strip g))"
proof (intro conjI impI allI)
  assume a: "text = pre @ ''Title'' @ ws @ [NL] @ ind @ content @ rest
      \<and> (pre = [] \<or> last pre = NL)
      \<and> (\<forall>i < length pre. \<not> startswith (drop i text) ''Title'')
      \<and> list_all isspace ws \<and> ind \<noteq> [] \<and> list_all sp_or_tab ind
      \<and> content \<noteq> [] \<and> \<not> isspace (hd content) \<and> NL \<notin> set content
      \<and> (rest = [] \<or> hd rest = NL)"
  let ?s = "''Title'' @ ws @ [NL] @ ind @ content @ rest"
  from a have m: "title_match_at ?s = Some content" by (intro title_body) auto
  from a have "\<forall>i < length pre. title_match_at (drop i (pre @ ?s)) = None"
    by (auto simp: title_match_at_def re_literal_def)
  then have "re_search title_match_at (pre @ ?s) = re_search title_match_at ?s"
    by (rule re_search_skip)
  also have "\<dots> = Some content" using m by simp
  finally have "re_search title_match_at text = Some content" using a by simp
  moreover have "strip content \<noteq> []"
    using a by (cases content) (auto simp: strip_Nil_iff)
  ultimately show "find_title text = Some (strip content)" by (simp add: find_title_def)
next
  fix t assume t: "find_title text = Some t"
  then obtain g where g: "re_search title_match_at text = Some g" "t = strip g" "t \<noteq> []"
    by (auto simp: find_title_def split: option.splits if_splits)
  from re_search_Some[OF g(1)] obtain before r where r: "text = before @ r" "title_match_at r = Some g"
    by blast
  from title_match_at_Some[OF r(2)] obtain ws ind rest where
    "r = ''Title'' @ ws @ [NL] @ ind @ g @ rest" "list_all isspace ws" "ind \<noteq> []"
    "list_all sp_or_tab ind" "NL \<notin> set g" "rest = [] \<or> hd rest = NL" by blast
  with r(1) g(2) have "text = before @ ''Title'' @ ws @ [NL] @ ind @ g @ rest
           \<and> list_all isspace ws \<and> ind \<noteq> [] \<and> list_all sp_or_tab ind
           \<and> NL \<notin> set g \<and> (rest = [] \<or> hd rest = NL) \<and> t = strip g" by simp
  then show "\<exists>before ws ind g rest.
           text = before @ ''Title'' @ ws @ [NL] @ ind @ g @ rest
           \<and> list_all isspace ws \<and> ind \<noteq> [] \<and> list_all sp_or_tab ind
           \<and> NL \<notin> set g \<and> (rest = [] \<or> hd rest = NL) \<and> t = strip g" by blast
  from g(3) show "t \<noteq> []" .
qed

theorem C1_title_check_witness:
  "find_title (''Title  '' @ [NL, NL, TAB] @ ''Foo Bar '' @ [NL] @ ''ArtDescription'' @ [NL]) = Some ''Foo Bar''"
proof -
  let ?text = "''Title  '' @ [NL, NL, TAB] @ ''Foo Bar '' @ [NL] @ ''ArtDescription'' @ [NL]"
  have h: "?text = [] @ ''Title'' @ (''  '' @ [NL]) @ [NL] @ [TAB] @ ''Foo Bar '' @ ([NL] @ ''ArtDescription'' @ [NL])
      \<and> (([]::string) = [] \<or> last ([]::string) = NL)
      \<and> (\<forall>i < length ([]::string). \<not> startswith (drop i ?text) ''Title'')
      \<and> list_all isspace (''  '' @ [NL]) \<and> [TAB] \<noteq> [] \<and> list_all sp_or_tab [TAB]
      \<and> ''Foo Bar '' \<noteq> [] \<and> \<not> isspace (hd ''Foo Bar '') \<and> NL \<notin> set ''Foo Bar ''
      \<and> (([NL] @ ''ArtDescription'' @ [NL]) = [] \<or> hd ([NL] @ ''ArtDescription'' @ [NL]) = NL)"
    by (simp add: isspace_def sp_or_tab_def)
  have s: "strip ''Foo Bar '' = ''Foo Bar''" by code_simp
  from C1_title_check[of ?text "[]" "''  '' @ [NL]" "[TAB]" "''Foo Bar ''" "[NL] @ ''ArtDescription'' @ [NL]"] h
  have "find_title ?text = Some (strip ''Foo Bar '')" by blast
  with s show ?thesis by simp
qed

text \<open>
  The condition of C1 as the specification words it holds of the text
  \<open>"Title\nArtDescription\n\tHello\n"\<close> (a Title line, and an indented line two lines
  below), and the check fails on it.
\<close>

theorem C1_counterexample:
  "claimed_title_condition (split_nl (''Title'' @ [NL] @ ''ArtDescription'' @ [NL, TAB] @ ''Hello'' @ [NL]))
   \<and> find_title (''Title'' @ [NL] @ ''ArtDescription'' @ [NL, TAB] @ ''Hello'' @ [NL]) = None"
  by code_simp

text \<open>
  The pattern is not anchored to the start of a line: the word Title at the end of a
  longer word is accepted as the header.
\<close>

lemma title_pattern_not_anchored:
  "find_title (''SubTitle'' @ [NL, TAB] @ ''Foo'' @ [NL]) = Some ''Foo''
   \<and> \<not> claimed_title_condition (split_nl (''SubTitle'' @ [NL, TAB] @ ''Foo'' @ [NL]))"
  by code_simp

subsection \<open>The list of images\<close>

text \<open>
  C2, evaluated: scanned together with \<open>1-Foo\<close>, the directory \<open>2-Bar\<close> is valid and
  its primary image is \<open>LindseyAyres_Bar.jpg\<close> of \<open>1-Foo\<close>; scanned alone it is invalid,
  with no matching image. The list \<open>valid_images\<close> is not emptied between directories.
\<close>

theorem C2_images_of_other_directories:
  "map_sum id valid_art_info (get_valid_art_directories [dir_foo, dir_bar])
     = Inr [\<lparr>dir_path = ''2-Bar'', title = ''Bar'', large_image = (''1-Foo'', ''LindseyAyres_Bar.jpg'')\<rparr>]
   \<and> map_sum id valid_art_info (get_valid_art_directories [dir_bar]) = Inr []
   \<and> map_sum id missing_matched_img (get_valid_art_directories [dir_bar]) = Inr [''2-Bar'']
   \<and> image_files dir_bar = [(''2-Bar'', ''sketch.png'')]"
  by code_simp

subsection \<open>Expected image name\<close>

lemma sub_leading_number_no_dash: "CHR ''-'' \<notin> set d \<Longrightarrow> sub_leading_number d = d"
proof -
  assume nd: "CHR ''-'' \<notin> set d"
  have "dropWhile is_digit d \<noteq> [] \<Longrightarrow> hd (dropWhile is_digit d) \<in> set d"
    by (metis hd_in_set set_dropWhileD)
  with nd have "\<not> (dropWhile is_digit d \<noteq> [] \<and> hd (dropWhile is_digit d) = CHR ''-'')" by metis
  then show ?thesis unfolding sub_leading_number_def Let_def by metis
qed

text \<open>
  C6, as the code has it: for a directory name without a dash, the derivation of the
  validator fails with \<open>ValueError\<close>, and the derivation of merge_artworks.py does not
  fail: it returns the prefix followed by the name without its underscores.
\<close>

theorem C6_name_without_dash:
  "CHR ''-'' \<notin> set d \<Longrightarrow>
     stripDirStringToImageFormat d = Inl ValueError
     \<and> derive_image_basename_from_folder d = ''LindseyAyres_'' @ filter (\<lambda>c. c \<noteq> CHR ''_'') d"
  by (simp add: sub_leading_number_no_dash stripDirStringToImageFormat_def split_dash_once_def
      derive_image_basename_from_folder_def)

theorem C6_name_without_dash_witness:
  "stripDirStringToImageFormat ''42_Ancient_Mech'' = Inl ValueError
   \<and> derive_image_basename_from_folder ''42_Ancient_Mech'' = ''LindseyAyres_42AncientMech''"
proof -
  have "CHR ''-'' \<notin> set ''42_Ancient_Mech''" by simp
  from C6_name_without_dash[OF this] show ?thesis by simp
qed

text \<open>
  The derivation of merge_artworks.py returns a name for \<open>NoDash\<close>, which has no dash:
  the prefix and the name as it is.
\<close>

theorem C6_counterexample:
  "CHR ''-'' \<notin> set ''NoDash'' \<and> derive_image_basename_from_folder ''NoDash'' = ''LindseyAyres_NoDash''"
  by code_simp

section \<open>Floats\<close>

subsection \<open>The exponent\<close>

lemma pow2_pos: "0 < pow2 e"
  by (simp add: pow2_def)

lemma pow2_nat: "pow2 (int n) = 2 ^ n"
  by (simp add: pow2_def)

lemma pow2_neg_nat: "pow2 (- int n) = 1 / 2 ^ n"
  by (cases "n = 0") (simp_all add: pow2_def)

lemma ilog2_lower: "0 < x \<Longrightarrow> pow2 (ilog2 x) \<le> x"
proof (cases "1 \<le> x")
  case True
  then have n: "0 < \<lfloor>x\<rfloor>" by simp
  from bitlen_bounds[OF n] have "(2::int) ^ nat (bitlen \<lfloor>x\<rfloor> - 1) \<le> \<lfloor>x\<rfloor>" by simp
  then have "(of_int ((2::int) ^ nat (bitlen \<lfloor>x\<rfloor> - 1)) :: rat) \<le> of_int \<lfloor>x\<rfloor>"
    by (simp only: of_int_le_iff)
  also have "\<dots> \<le> x" by simp
  finally have "(2::rat) ^ nat (bitlen \<lfloor>x\<rfloor> - 1) \<le> x" by simp
  moreover have "1 \<le> bitlen \<lfloor>x\<rfloor>" using n by (simp add: bitlen_ge_iff_power)
  ultimately show ?thesis using True by (simp add: ilog2_def pow2_def)
next
  case False
  assume x: "0 < x"
  let ?m = "\<lceil>1 / x\<rceil>"
  let ?k = "bitlen (?m - 1)"
  from False x have y: "1 < 1 / x" by simp
  then have m: "2 \<le> ?m" by (simp add: le_ceiling_iff)
  then have m1: "0 < ?m - 1" by simp
  from bitlen_bounds[OF m1] have "?m - 1 < 2 ^ nat ?k" by simp
  then have "?m \<le> 2 ^ nat ?k" by simp
  then have "(of_int ?m :: rat) \<le> of_int (2 ^ nat ?k)" by (simp only: of_int_le_iff)
  moreover have "1 / x \<le> of_int ?m" by (rule le_of_int_ceiling)
  moreover have "(of_int (2 ^ nat ?k) :: rat) = 2 ^ nat ?k" by simp
  ultimately have "1 / x \<le> 2 ^ nat ?k" by (metis order_trans)
  then have "1 \<le> 2 ^ nat ?k * x" using x by (simp add: pos_divide_le_eq)
  then have "1 / 2 ^ nat ?k \<le> x" by (simp add: pos_divide_le_eq mult.commute)
  moreover have "0 \<le> ?k" by (rule bitlen_nonneg)
  ultimately show ?thesis using False
    by (cases "?k = 0") (simp_all add: ilog2_def pow2_def)
qed

lemma ilog2_upper: "0 < x \<Longrightarrow> x < pow2 (ilog2 x + 1)"
proof (cases "1 \<le> x")
  case True
  then have n: "0 < \<lfloor>x\<rfloor>" by simp
  from bitlen_bounds[OF n] have "\<lfloor>x\<rfloor> + 1 \<le> 2 ^ nat (bitlen \<lfloor>x\<rfloor>)" by simp
  then have "(of_int (\<lfloor>x\<rfloor> + 1) :: rat) \<le> of_int (2 ^ nat (bitlen \<lfloor>x\<rfloor>))"
    by (simp only: of_int_le_iff)
  moreover have "x < of_int (\<lfloor>x\<rfloor> + 1)" using floor_correct[of x] by blast
  moreover have "(of_int (2 ^ nat (bitlen \<lfloor>x\<rfloor>)) :: rat) = 2 ^ nat (bitlen \<lfloor>x\<rfloor>)" by simp
  ultimately have "x < 2 ^ nat (bitlen \<lfloor>x\<rfloor>)" by (metis less_le_trans)
  moreover have "0 \<le> bitlen \<lfloor>x\<rfloor>" by (rule bitlen_nonneg)
  ultimately show ?thesis using True by (simp add: ilog2_def pow2_def)
next
  case False
  assume x: "0 < x"
  let ?m = "\<lceil>1 / x\<rceil>"
  let ?k = "bitlen (?m - 1)"
  from False x have y: "1 < 1 / x" by simp
  then have m: "2 \<le> ?m" by (simp add: le_ceiling_iff)
  then have m1: "0 < ?m - 1" by simp
  then have k1: "1 \<le> ?k" by (simp add: bitlen_ge_iff_power)
  from bitlen_bounds[OF m1] have "(2::int) ^ nat (?k - 1) \<le> ?m - 1" by simp
  then have "(of_int ((2::int) ^ nat (?k - 1)) :: rat) \<le> of_int (?m - 1)" by (simp only: of_int_le_iff)
  moreover have "of_int (?m - 1) < 1 / x" using ceiling_correct[of "1 / x"] by simp
  moreover have "(of_int ((2::int) ^ nat (?k - 1)) :: rat) = 2 ^ nat (?k - 1)" by simp
  ultimately have "(2::rat) ^ nat (?k - 1) < 1 / x" by (metis le_less_trans)
  then have "2 ^ nat (?k - 1) * x < 1" using x by (simp add: pos_less_divide_eq)
  then have lt: "x < 1 / 2 ^ nat (?k - 1)" by (simp add: pos_less_divide_eq mult.commute)
  show ?thesis
  proof (cases "?k = 1")
    case True
    with lt False show ?thesis by (simp add: ilog2_def pow2_def)
  next
    case F: False
    with k1 have "\<not> 0 \<le> - ?k + 1" "nat (- (- ?k + 1)) = nat (?k - 1)" by simp_all
    with lt False show ?thesis by (simp add: ilog2_def pow2_def)
  qed
qed

subsection \<open>Integers below \<open>2 ^ 53\<close> are floats\<close>

lemma round_half_even_int: "round_half_even (of_int m) = m"
  by (simp add: round_half_even_def)

lemma bitlen_small: "0 < n \<Longrightarrow> n < 2 ^ 53 \<Longrightarrow> 1 \<le> bitlen n \<and> bitlen n \<le> 53"
proof -
  assume a: "0 < n" "n < (2::int) ^ 53"
  from a(2) have "bitlen n \<le> 53" by (simp add: bitlen_le_iff_power)
  moreover from a(1) have "1 \<le> bitlen n" by (simp add: bitlen_ge_iff_power)
  ultimately show ?thesis by simp
qed

lemma ilog2_int: "0 < n \<Longrightarrow> ilog2 (of_int n) = bitlen n - 1"
  by (simp add: ilog2_def)

lemma round64_int:
  assumes "0 < n" "n < 2 ^ 53"
  shows "round64 (of_int n) = of_int n"
proof -
  from bitlen_small[OF assms] have b: "1 \<le> bitlen n" "bitlen n \<le> 53" by auto
  define k where "k = nat (53 - bitlen n)"
  have q: "max (ilog2 \<bar>of_int n\<bar> - 52) (- 1074) = - int k"
    using assms b by (simp add: ilog2_int k_def abs_of_pos)
  have p: "pow2 (- int k) = 1 / 2 ^ k" by (rule pow2_neg_nat)
  have "(of_int n :: rat) / pow2 (- int k) = of_int (n * 2 ^ k)" by (simp add: p)
  then have "round_half_even (of_int n / pow2 (- int k)) = n * 2 ^ k"
    by (simp only: round_half_even_int)
  then have "round64 (of_int n) = of_int (n * 2 ^ k) * pow2 (- int k)"
    using assms(1) q by (simp add: round64_def Let_def)
  also have "\<dots> = of_int n" by (simp add: p)
  finally show ?thesis .
qed

lemma to_float_int:
  assumes "0 < n" "n < 2 ^ 53"
  shows "to_float (of_int n) = Finite (of_int n)"
proof -
  from bitlen_small[OF assms] have b: "bitlen n \<le> 53" by auto
  have "ilog2 \<bar>of_int n\<bar> = bitlen n - 1" using assms by (simp add: ilog2_int abs_of_pos)
  with b have "\<not> 1024 \<le> ilog2 \<bar>of_int n :: rat\<bar>" by simp
  with assms show ?thesis by (simp add: to_float_def round64_int Let_def)
qed

lemma exact_div:
  assumes "0 < g" "g dvd (n::int)" "0 < n" "n < 2 ^ 53"
  shows "int_truediv n g = Inr (Finite (of_int (n div g)))"
proof -
  from assms(2) obtain k where k: "n = g * k" by (auto simp: dvd_def)
  with assms(1) have d: "n div g = k" by simp
  have r: "(of_int n :: rat) / of_int g = of_int k" using assms(1) k by simp
  from assms(1,3) k have kp: "0 < k" by (simp add: zero_less_mult_iff)
  have "1 * k \<le> g * k" using assms(1) kp by (intro mult_right_mono) auto
  then have "k \<le> n" using k by simp
  with assms(4) have "k < 2 ^ 53" by simp
  with kp have "to_float (of_int k) = Finite (of_int k)" by (rule to_float_int)
  with assms(1) show ?thesis by (simp add: int_truediv_def r d)
qed

lemma calculate_ratio_int:
  assumes "0 < a" "0 < b" "10 * a < 2 ^ 53" "10 * b < 2 ^ 53"
  shows "calculate_ratio (Finite (of_int a)) (Finite (of_int b))
         = Inr (Finite (of_int (10 * a div gcd (10 * a) (10 * b))), Finite (of_int (10 * b div gcd (10 * a) (10 * b))))"
proof -
  let ?g = "gcd (10 * a) (10 * b)"
  have g: "0 < ?g" using assms(1) by (simp add: gcd_pos_int)
  have "to_float (of_int (10 * a)) = Finite (of_int (10 * a))"
    using assms by (intro to_float_int) auto
  then have wa: "fmul (Finite (of_int a)) (Finite 10) = Finite (of_int (10 * a))"
    by (simp add: mult.commute)
  have "to_float (of_int (10 * b)) = Finite (of_int (10 * b))"
    using assms by (intro to_float_int) auto
  then have wb: "fmul (Finite (of_int b)) (Finite 10) = Finite (of_int (10 * b))"
    by (simp add: mult.commute)
  have ta: "int_truediv (10 * a) ?g = Inr (Finite (of_int (10 * a div ?g)))"
    using g assms by (intro exact_div) auto
  have tb: "int_truediv (10 * b) ?g = Inr (Finite (of_int (10 * b div ?g)))"
    using g assms by (intro exact_div) auto
  show ?thesis
    unfolding calculate_ratio_def wa wb py_round_def
    by (simp add: round_half_even_int ta tb Let_def del: of_int_mult)
qed

subsection \<open>Rules that evaluate floats\<close>

lemma bitlen_numeral: "bitlen (numeral n) = bitlen (numeral n div 2) + 1"
  by (subst compute_bitlen) simp

lemma bitlen_one: "bitlen 1 = 1"
  by (subst compute_bitlen) simp

lemma floor_rat_numeral: "\<lfloor>(numeral a / numeral b :: rat)\<rfloor> = numeral a div numeral b"
  by (metis floor_divide_of_int_eq of_int_numeral)

lemma floor_rat_one_numeral: "\<lfloor>(1 / numeral b :: rat)\<rfloor> = 1 div numeral b"
  by (metis floor_divide_of_int_eq of_int_numeral of_int_1)

lemma ceiling_rat_numeral: "\<lceil>(numeral a / numeral b :: rat)\<rceil> = - (- numeral a div numeral b)"
  by (metis ceiling_divide_eq_div of_int_numeral)

lemma ceiling_rat_one_numeral: "\<lceil>(1 / numeral b :: rat)\<rceil> = - (- 1 div numeral b)"
  by (metis ceiling_divide_eq_div of_int_numeral of_int_1)

lemma floor_rat_neg_numeral: "\<lfloor>(- (numeral a / numeral b) :: rat)\<rfloor> = - numeral a div numeral b"
  by (metis floor_divide_of_int_eq of_int_numeral of_int_minus minus_divide_left)

lemma ceiling_rat_neg_numeral: "\<lceil>(- (numeral a / numeral b) :: rat)\<rceil> = - (numeral a div numeral b)"
  by (metis ceiling_divide_eq_div of_int_numeral of_int_minus minus_divide_left minus_minus)

lemma pow2_table:
  "pow2 (- 112) = 1 / 5192296858534827628530496329220096"
  "pow2 (- 111) = 1 / 2596148429267413814265248164610048"
  "pow2 (- 110) = 1 / 1298074214633706907132624082305024"
  "pow2 (- 109) = 1 / 649037107316853453566312041152512"
  "pow2 (- 108) = 1 / 324518553658426726783156020576256"
  "pow2 (- 107) = 1 / 162259276829213363391578010288128"
  "pow2 (- 106) = 1 / 81129638414606681695789005144064"
  "pow2 (- 105) = 1 / 40564819207303340847894502572032"
  "pow2 (- 104) = 1 / 20282409603651670423947251286016"
  "pow2 (- 103) = 1 / 10141204801825835211973625643008"
  "pow2 (- 102) = 1 / 5070602400912917605986812821504"
  "pow2 (- 101) = 1 / 2535301200456458802993406410752"
  "pow2 (- 100) = 1 / 1267650600228229401496703205376"
  "pow2 (- 99) = 1 / 633825300114114700748351602688"
  "pow2 (- 98) = 1 / 316912650057057350374175801344"
  "pow2 (- 97) = 1 / 158456325028528675187087900672"
  "pow2 (- 96) = 1 / 79228162514264337593543950336"
  "pow2 (- 95) = 1 / 39614081257132168796771975168"
  "pow2 (- 94) = 1 / 19807040628566084398385987584"
  "pow2 (- 93) = 1 / 9903520314283042199192993792"
  "pow2 (- 92) = 1 / 4951760157141521099596496896"
  "pow2 (- 91) = 1 / 2475880078570760549798248448"
  "pow2 (- 90) = 1 / 1237940039285380274899124224"
  "pow2 (- 89) = 1 / 618970019642690137449562112"
  "pow2 (- 88) = 1 / 309485009821345068724781056"
  "pow2 (- 87) = 1 / 154742504910672534362390528"
  "pow2 (- 86) = 1 / 77371252455336267181195264"
  "pow2 (- 85) = 1 / 38685626227668133590597632"
  "pow2 (- 84) = 1 / 19342813113834066795298816"
  "pow2 (- 83) = 1 / 9671406556917033397649408"
  "pow2 (- 82) = 1 / 4835703278458516698824704"
  "pow2 (- 81) = 1 / 2417851639229258349412352"
  "pow2 (- 80) = 1 / 1208925819614629174706176"
  "pow2 (- 79) = 1 / 604462909807314587353088"
  "pow2 (- 78) = 1 / 302231454903657293676544"
  "pow2 (- 77) = 1 / 151115727451828646838272"
  "pow2 (- 76) = 1 / 75557863725914323419136"
  "pow2 (- 75) = 1 / 37778931862957161709568"
  "pow2 (- 74) = 1 / 18889465931478580854784"
  "pow2 (- 73) = 1 / 9444732965739290427392"
  "pow2 (- 72) = 1 / 4722366482869645213696"
  "pow2 (- 71) = 1 / 2361183241434822606848"
  "pow2 (- 70) = 1 / 1180591620717411303424"
  "pow2 (- 69) = 1 / 590295810358705651712"
  "pow2 (- 68) = 1 / 295147905179352825856"
  "pow2 (- 67) = 1 / 147573952589676412928"
  "pow2 (- 66) = 1 / 73786976294838206464"
  "pow2 (- 65) = 1 / 36893488147419103232"
  "pow2 (- 64) = 1 / 18446744073709551616"
  "pow2 (- 63) = 1 / 9223372036854775808"
  "pow2 (- 62) = 1 / 4611686018427387904"
  "pow2 (- 61) = 1 / 2305843009213693952"
  "pow2 (- 60) = 1 / 1152921504606846976"
  "pow2 (- 59) = 1 / 576460752303423488"
  "pow2 (- 58) = 1 / 288230376151711744"
  "pow2 (- 57) = 1 / 144115188075855872"
  "pow2 (- 56) = 1 / 72057594037927936"
  "pow2 (- 55) = 1 / 36028797018963968"
  "pow2 (- 54) = 1 / 18014398509481984"
  "pow2 (- 53) = 1 / 9007199254740992"
  "pow2 (- 52) = 1 / 4503599627370496"
  "pow2 (- 51) = 1 / 2251799813685248"
  "pow2 (- 50) = 1 / 1125899906842624"
  "pow2 (- 49) = 1 / 562949953421312"
  "pow2 (- 48) = 1 / 281474976710656"
  "pow2 (- 47) = 1 / 140737488355328"
  "pow2 (- 46) = 1 / 70368744177664"
  "pow2 (- 45) = 1 / 35184372088832"
  "pow2 (- 44) = 1 / 17592186044416"
  "pow2 (- 43) = 1 / 8796093022208"
  "pow2 (- 42) = 1 / 4398046511104"
  "pow2 (- 41) = 1 / 2199023255552"
  "pow2 (- 40) = 1 / 1099511627776"
  "pow2 (- 39) = 1 / 549755813888"
  "pow2 (- 38) = 1 / 274877906944"
  "pow2 (- 37) = 1 / 137438953472"
  "pow2 (- 36) = 1 / 68719476736"
  "pow2 (- 35) = 1 / 34359738368"
  "pow2 (- 34) = 1 / 17179869184"
  "pow2 (- 33) = 1 / 8589934592"
  "pow2 (- 32) = 1 / 4294967296"
  "pow2 (- 31) = 1 / 2147483648"
  "pow2 (- 30) = 1 / 1073741824"
  "pow2 (- 29) = 1 / 536870912"
  "pow2 (- 28) = 1 / 268435456"
  "pow2 (- 27) = 1 / 134217728"
  "pow2 (- 26) = 1 / 67108864"
  "pow2 (- 25) = 1 / 33554432"
  "pow2 (- 24) = 1 / 16777216"
  "pow2 (- 23) = 1 / 8388608"
  "pow2 (- 22) = 1 / 4194304"
  "pow2 (- 21) = 1 / 2097152"
  "pow2 (- 20) = 1 / 1048576"
  "pow2 (- 19) = 1 / 524288"
  "pow2 (- 18) = 1 / 262144"
  "pow2 (- 17) = 1 / 131072"
  "pow2 (- 16) = 1 / 65536"
  "pow2 (- 15) = 1 / 32768"
  "pow2 (- 14) = 1 / 16384"
  "pow2 (- 13) = 1 / 8192"
  "pow2 (- 12) = 1 / 4096"
  "pow2 (- 11) = 1 / 2048"
  "pow2 (- 10) = 1 / 1024"
  "pow2 (- 9) = 1 / 512"
  "pow2 (- 8) = 1 / 256"
  "pow2 (- 7) = 1 / 128"
  "pow2 (- 6) = 1 / 64"
  "pow2 (- 5) = 1 / 32"
  "pow2 (- 4) = 1 / 16"
  "pow2 (- 3) = 1 / 8"
  "pow2 (- 2) = 1 / 4"
  "pow2 (- 1) = 1 / 2"
  "pow2 0 = 1"
  "pow2 1 = 2"
  "pow2 2 = 4"
  "pow2 3 = 8"
  "pow2 4 = 16"
  "pow2 5 = 32"
  "pow2 6 = 64"
  "pow2 7 = 128"
  "pow2 8 = 256"
  "pow2 9 = 512"
  "pow2 10 = 1024"
  "pow2 11 = 2048"
  "pow2 12 = 4096"
  by (simp_all add: pow2_def)

lemma to_float_numeral:
  "numeral n < (9007199254740992::int) \<Longrightarrow> to_float (numeral n) = Finite (numeral n)"
  using to_float_int[of "numeral n"] by simp

lemmas float_eval = to_float_numeral to_float_def round64_def ilog2_def pow2_table round_half_even_def Let_def
  bitlen_numeral bitlen_one floor_rat_numeral floor_rat_one_numeral ceiling_rat_numeral ceiling_rat_one_numeral
  floor_rat_neg_numeral ceiling_rat_neg_numeral

lemma default_tolerance_value: "default_tolerance = Finite (5764607523034235 / 288230376151711744)"
  by (simp add: default_tolerance_def float_eval)

section \<open>Prices\<close>

lemma startswith_iff: "startswith s p \<longleftrightarrow> (\<exists>post. s = p @ post)"
  unfolding startswith_def by (metis append_eq_conv_conj append_take_drop_id)

lemma contains_iff: "contains needle hay \<longleftrightarrow> (\<exists>pre post. hay = pre @ needle @ post)"
proof (induction hay)
  case Nil
  show ?case by auto
next
  case (Cons c cs)
  show ?case
  proof
    assume "contains needle (c # cs)"
    then consider "startswith (c # cs) needle" | "contains needle cs" by auto
    then show "\<exists>pre post. c # cs = pre @ needle @ post"
    proof cases
      case 1
      then obtain post where "c # cs = needle @ post" by (auto simp: startswith_iff)
      then have "c # cs = [] @ needle @ post" by simp
      then show ?thesis by blast
    next
      case 2
      with Cons.IH obtain pre post where "cs = pre @ needle @ post" by blast
      then have "c # cs = (c # pre) @ needle @ post" by simp
      then show ?thesis by blast
    qed
  next
    assume "\<exists>pre post. c # cs = pre @ needle @ post"
    then obtain pre post where e: "c # cs = pre @ needle @ post" by blast
    show "contains needle (c # cs)"
    proof (cases pre)
      case Nil
      with e have "startswith (c # cs) needle" by (auto simp: startswith_iff)
      then show ?thesis by simp
    next
      case (Cons d pre')
      with e have "cs = pre' @ needle @ post" by simp
      with Cons.IH have "contains needle cs" by blast
      then show ?thesis by simp
    qed
  qed
qed

text \<open>
  C8: \<open>determine_for_sale\<close> is false on a string that is empty or white space only, and
  on a string whose lower-casing contains \<open>sold\<close> or \<open>not for sale\<close>; on every other
  string it is true exactly when \<open>parse_price\<close> is greater than zero. It is false on
  \<open>Sold\<close> and true on \<open>$50\<close>.
\<close>

theorem C8_determine_for_sale:
  "(strip s = [] \<longrightarrow> \<not> determine_for_sale s)
   \<and> ((\<exists>pre post. lower s = pre @ ''sold'' @ post) \<or> (\<exists>pre post. lower s = pre @ ''not for sale'' @ post)
        \<longrightarrow> \<not> determine_for_sale s)
   \<and> (strip s \<noteq> [] \<and> \<not> (\<exists>pre post. lower s = pre @ ''sold'' @ post)
        \<and> \<not> (\<exists>pre post. lower s = pre @ ''not for sale'' @ post)
        \<longrightarrow> determine_for_sale s = flt (Finite 0) (parse_price s))
   \<and> \<not> determine_for_sale ''Sold'' \<and> determine_for_sale ''$50''"
proof -
  have e: "\<not> determine_for_sale ''Sold'' \<and> determine_for_sale ''$50''" by code_simp
  have n: "strip s \<noteq> [] \<Longrightarrow> s \<noteq> []" by (auto simp: strip_def lstrip_def rstrip_def)
  have 1: "strip s = [] \<longrightarrow> \<not> determine_for_sale s"
    by (simp add: determine_for_sale_def)
  have 2: "(\<exists>pre post. lower s = pre @ ''sold'' @ post) \<or> (\<exists>pre post. lower s = pre @ ''not for sale'' @ post)
        \<longrightarrow> \<not> determine_for_sale s"
    unfolding contains_iff[symmetric] by (simp add: determine_for_sale_def Let_def)
  have 3: "strip s \<noteq> [] \<and> \<not> (\<exists>pre post. lower s = pre @ ''sold'' @ post)
        \<and> \<not> (\<exists>pre post. lower s = pre @ ''not for sale'' @ post)
        \<longrightarrow> determine_for_sale s = flt (Finite 0) (parse_price s)"
    unfolding contains_iff[symmetric] using n by (simp add: determine_for_sale_def Let_def)
  from 1 2 3 e show ?thesis by (intro conjI) blast+
qed

theorem C8_determine_for_sale_witness:
  "determine_for_sale (''$1,200'') = flt (Finite 0) (parse_price ''$1,200'')
   \<and> parse_price ''$1,200'' = Finite 1200 \<and> determine_for_sale ''$1,200''
   \<and> \<not> determine_for_sale ''not for Sale ($5)''"
proof -
  have h: "strip ''$1,200'' \<noteq> [] \<and> \<not> contains ''sold'' (lower ''$1,200'')
      \<and> \<not> contains ''not for sale'' (lower ''$1,200'')" by code_simp
  have h': "strip ''$1,200'' \<noteq> [] \<and> \<not> (\<exists>pre post. lower ''$1,200'' = pre @ ''sold'' @ post)
      \<and> \<not> (\<exists>pre post. lower ''$1,200'' = pre @ ''not for sale'' @ post)"
    unfolding contains_iff[symmetric] by (rule h)
  have p: "parse_price ''$1,200'' = Finite 1200" by code_simp
  have c0: "contains ''not for sale'' (lower ''not for Sale ($5)'')" by code_simp
  have c: "\<exists>pre post. lower ''not for Sale ($5)'' = pre @ ''not for sale'' @ post"
    unfolding contains_iff[symmetric] by (rule c0)
  from C8_determine_for_sale[of "''$1,200''"] h'
  have a: "determine_for_sale ''$1,200'' = flt (Finite 0) (parse_price ''$1,200'')" by blast
  from C8_determine_for_sale[of "''not for Sale ($5)''"] c
  have b: "\<not> determine_for_sale ''not for Sale ($5)''" by blast
  from a p b show ?thesis by simp
qed

section \<open>Ratio matcher\<close>

text \<open>
  C5: for a height of zero, whatever the width and the tolerance are, the matcher raises
  \<open>ZeroDivisionError\<close>; it returns no list.
\<close>

theorem C5_zero_height:
  "find_matching_print_sizes artwork_w (Finite 0) tolerance = Inl ZeroDivisionError"
  by (simp add: find_matching_print_sizes_def)

subsection \<open>The simplified ratio of integer sizes\<close>

lemma same_ratio:
  "fdiv w h = fdiv w' h' \<Longrightarrow> find_matching_print_sizes w h tol = find_matching_print_sizes w' h' tol"
  by (simp add: find_matching_print_sizes_def)

lemma reduced_quotient:
  assumes "0 < a" "0 < (b::int)"
  shows "(of_int (10 * a div gcd (10 * a) (10 * b)) :: rat) / of_int (10 * b div gcd (10 * a) (10 * b))
         = of_int a / of_int b"
    and "0 < 10 * b div gcd (10 * a) (10 * b)"
proof -
  define g where "g = gcd (10 * a) (10 * b)"
  have g: "0 < g" using assms(1) by (simp add: g_def gcd_pos_int)
  obtain a' where a': "10 * a = g * a'" unfolding g_def by (metis gcd_dvd1 dvd_def)
  obtain b' where b': "10 * b = g * b'" unfolding g_def by (metis gcd_dvd2 dvd_def)
  have da: "10 * a div g = a'" using g by (simp add: a')
  have db: "10 * b div g = b'" using g by (simp add: b')
  have "0 < g * b'" using assms(2) b' by simp
  with g have bp: "0 < b'" by (simp add: zero_less_mult_iff)
  have "(of_int a' :: rat) / of_int b' = (of_int g * of_int a') / (of_int g * of_int b')"
    using g by simp
  also have "\<dots> = of_int (10 * a) / of_int (10 * b)"
    by (simp only: a' b' of_int_mult)
  also have "\<dots> = of_int a / of_int b" by simp
  finally have "(of_int (10 * a div g) :: rat) / of_int (10 * b div g) = of_int a / of_int b"
    by (simp only: da db)
  then show "(of_int (10 * a div gcd (10 * a) (10 * b)) :: rat) / of_int (10 * b div gcd (10 * a) (10 * b))
         = of_int a / of_int b" by (simp only: g_def)
  from bp have "0 < 10 * b div g" by (simp only: db)
  then show "0 < 10 * b div gcd (10 * a) (10 * b)" by (simp only: g_def)
qed

text \<open>
  C4, as the code has it: for a width and a height that are positive integers (the pixel
  sizes of an image) with ten times each below \<open>2 ^ 53\<close>, \<open>calculate_ratio\<close> returns a pair
  in the same exact ratio, and the matcher returns for that pair what it returns for the
  width and height themselves, under every tolerance.
\<close>

theorem C4_integer_sizes:
  assumes "0 < a" "0 < b" "10 * a < 2 ^ 53" "10 * b < 2 ^ 53"
  shows "\<exists>ratio_w ratio_h.
           calculate_ratio (Finite (of_int a)) (Finite (of_int b)) = Inr (Finite ratio_w, Finite ratio_h)
           \<and> ratio_w / ratio_h = of_int a / of_int b
           \<and> find_matching_print_sizes (Finite ratio_w) (Finite ratio_h) tolerance
               = find_matching_print_sizes (Finite (of_int a)) (Finite (of_int b)) tolerance"
proof -
  let ?rw = "of_int (10 * a div gcd (10 * a) (10 * b)) :: rat"
  let ?rh = "of_int (10 * b div gcd (10 * a) (10 * b)) :: rat"
  have c: "calculate_ratio (Finite (of_int a)) (Finite (of_int b)) = Inr (Finite ?rw, Finite ?rh)"
    using assms by (rule calculate_ratio_int)
  have q: "?rw / ?rh = of_int a / of_int b" and p: "?rh \<noteq> 0"
    using reduced_quotient[OF assms(1,2)] by simp_all
  have "fdiv (Finite ?rw) (Finite ?rh) = Inr (to_float (?rw / ?rh))" using p by simp
  also have "\<dots> = fdiv (Finite (of_int a)) (Finite (of_int b))" using assms(2) q by simp
  finally have "find_matching_print_sizes (Finite ?rw) (Finite ?rh) tolerance
      = find_matching_print_sizes (Finite (of_int a)) (Finite (of_int b)) tolerance"
    by (rule same_ratio)
  with c q show ?thesis by blast
qed

subsection \<open>Evaluating the matcher\<close>

lemma accepted_append:
  "accepted ar tol xs = Inr r1 \<Longrightarrow> accepted ar tol ys = Inr r2 \<Longrightarrow> accepted ar tol (xs @ ys) = Inr (r1 @ r2)"
  by (induction xs arbitrary: r1) (auto split: sum.splits)

lemma match_loop_accepted:
  "accepted ar tol sizes = Inr r \<Longrightarrow>
     match_loop ar tol sizes acc = Inr (acc @ map (\<lambda>(w, h). format_size w h) r)"
proof (induction sizes arbitrary: r acc)
  case Nil
  then show ?case by simp
next
  case (Cons s sizes)
  obtain w h where s: "s = (w, h)" by (cases s)
  from Cons.prems obtain ok r' where ok: "ratio_matches ar tol (w, h) = Inr ok"
    and r': "accepted ar tol sizes = Inr r'" and r: "r = (if ok then (w, h) # r' else r')"
    by (auto simp: s simp del: ratio_matches.simps split: sum.splits)
  from Cons.IH[OF r'] show ?case by (simp add: s ok r del: ratio_matches.simps)
qed

lemma find_matching_eval:
  assumes "fdiv w h = Inr ar" "accepted ar tol ALL_VALID_SIZES = Inr r"
  shows "find_matching_print_sizes w h tol = sorted_by_size (remdups (map (\<lambda>(w, h). format_size w h) r))"
  using assms by (simp add: find_matching_print_sizes_def match_loop_accepted)

lemma catalog_parts:
  "ALL_VALID_SIZES = catalog_part 0 @ catalog_part 1 @ catalog_part 2 @ catalog_part 3
     @ catalog_part 4 @ catalog_part 5 @ catalog_part 6 @ catalog_part 7"
  by (simp add: catalog_part_def ALL_VALID_SIZES_def VALID_PRINT_SIZES_def)

lemma accepted_parts:
  assumes "accepted ar tol (catalog_part 0) = Inr r0" "accepted ar tol (catalog_part 1) = Inr r1"
    "accepted ar tol (catalog_part 2) = Inr r2" "accepted ar tol (catalog_part 3) = Inr r3"
    "accepted ar tol (catalog_part 4) = Inr r4" "accepted ar tol (catalog_part 5) = Inr r5"
    "accepted ar tol (catalog_part 6) = Inr r6" "accepted ar tol (catalog_part 7) = Inr r7"
  shows "accepted ar tol ALL_VALID_SIZES = Inr (r0 @ r1 @ r2 @ r3 @ r4 @ r5 @ r6 @ r7)"
  unfolding catalog_parts
  by (intro accepted_append assms)

lemma size_str_int: "0 < n \<Longrightarrow> n < 2 ^ 53 \<Longrightarrow> size_str (of_int n) = show_int n"
  by (simp add: size_str_def round64_int trunc_def)

lemma size_str_numeral:
  "numeral n < (9007199254740992::int) \<Longrightarrow> size_str (numeral n) = show_int (numeral n)"
  using size_str_int[of "numeral n"] by simp

lemma all_formats: "map (\<lambda>(w, h). format_size w h) ALL_VALID_SIZES = catalog_formats"
  apply (simp add: ALL_VALID_SIZES_def VALID_PRINT_SIZES_def format_size_def size_str_numeral
      catalog_formats_def)
  apply code_simp
  done

lemma zip_map_all: "list_all P (zip xs (map f xs)) \<Longrightarrow> \<forall>x \<in> set xs. P (x, f x)"
  by (induction xs) auto

text \<open>The catalog against the ratio of 1200 by 1800, part by part.\<close>

lemma ratio_2_3_part0:
  "accepted (Finite (6004799503160661 / 9007199254740992)) (Finite (5764607523034235 / 288230376151711744)) (catalog_part 0)
     = Inr [(4, 6), (8, 12), (12, 18)]"
  by (simp add: catalog_part_def ALL_VALID_SIZES_def VALID_PRINT_SIZES_def float_eval)

lemma ratio_2_3_part1:
  "accepted (Finite (6004799503160661 / 9007199254740992)) (Finite (5764607523034235 / 288230376151711744)) (catalog_part 1)
     = Inr [(16, 24), (20, 30), (24, 36), (32, 48), (36, 54), (40, 60), (18, 27)]"
  by (simp add: catalog_part_def ALL_VALID_SIZES_def VALID_PRINT_SIZES_def float_eval)

lemma ratio_2_3_part2:
  "accepted (Finite (6004799503160661 / 9007199254740992)) (Finite (5764607523034235 / 288230376151711744)) (catalog_part 2)
     = Inr []"
  by (simp add: catalog_part_def ALL_VALID_SIZES_def VALID_PRINT_SIZES_def float_eval)

lemma ratio_2_3_part3:
  "accepted (Finite (6004799503160661 / 9007199254740992)) (Finite (5764607523034235 / 288230376151711744)) (catalog_part 3)
     = Inr []"
  by (simp add: catalog_part_def ALL_VALID_SIZES_def VALID_PRINT_SIZES_def float_eval)

lemma ratio_2_3_part4:
  "accepted (Finite (6004799503160661 / 9007199254740992)) (Finite (5764607523034235 / 288230376151711744)) (catalog_part 4)
     = Inr []"
  by (simp add: catalog_part_def ALL_VALID_SIZES_def VALID_PRINT_SIZES_def float_eval)

lemma ratio_2_3_part5:
  "accepted (Finite (6004799503160661 / 9007199254740992)) (Finite (5764607523034235 / 288230376151711744)) (catalog_part 5)
     = Inr []"
  by (simp add: catalog_part_def ALL_VALID_SIZES_def VALID_PRINT_SIZES_def float_eval)

lemma ratio_2_3_part6:
  "accepted (Finite (6004799503160661 / 9007199254740992)) (Finite (5764607523034235 / 288230376151711744)) (catalog_part 6)
     = Inr [(27, 40)]"
  by (simp add: catalog_part_def ALL_VALID_SIZES_def VALID_PRINT_SIZES_def float_eval)

lemma ratio_2_3_part7:
  "accepted (Finite (6004799503160661 / 9007199254740992)) (Finite (5764607523034235 / 288230376151711744)) (catalog_part 7)
     = Inr [(236 / 10, 354 / 10)]"
  by (simp add: catalog_part_def ALL_VALID_SIZES_def VALID_PRINT_SIZES_def float_eval)

lemma ratio_2_3_accepted:
  "accepted (Finite (6004799503160661 / 9007199254740992)) (Finite (5764607523034235 / 288230376151711744)) ALL_VALID_SIZES
     = Inr [(4, 6), (8, 12), (12, 18), (16, 24), (20, 30), (24, 36), (32, 48), (36, 54), (40, 60), (18, 27), (27, 40), (236 / 10, 354 / 10)]"
  using accepted_parts[OF ratio_2_3_part0 ratio_2_3_part1 ratio_2_3_part2 ratio_2_3_part3 ratio_2_3_part4 ratio_2_3_part5 ratio_2_3_part6 ratio_2_3_part7]
  by simp

text \<open>The catalog against the ratio of 0.2 by 0.7, part by part.\<close>

lemma ratio_02_07_part0:
  "accepted (Finite (5146971002709139 / 18014398509481984)) (Finite (5764607523034235 / 288230376151711744)) (catalog_part 0)
     = Inr []"
  by (simp add: catalog_part_def ALL_VALID_SIZES_def VALID_PRINT_SIZES_def float_eval)

lemma ratio_02_07_part1:
  "accepted (Finite (5146971002709139 / 18014398509481984)) (Finite (5764607523034235 / 288230376151711744)) (catalog_part 1)
     = Inr []"
  by (simp add: catalog_part_def ALL_VALID_SIZES_def VALID_PRINT_SIZES_def float_eval)

lemma ratio_02_07_part2:
  "accepted (Finite (5146971002709139 / 18014398509481984)) (Finite (5764607523034235 / 288230376151711744)) (catalog_part 2)
     = Inr [(8, 28)]"
  by (simp add: catalog_part_def ALL_VALID_SIZES_def VALID_PRINT_SIZES_def float_eval)

lemma ratio_02_07_part3:
  "accepted (Finite (5146971002709139 / 18014398509481984)) (Finite (5764607523034235 / 288230376151711744)) (catalog_part 3)
     = Inr []"
  by (simp add: catalog_part_def ALL_VALID_SIZES_def VALID_PRINT_SIZES_def float_eval)

lemma ratio_02_07_part4:
  "accepted (Finite (5146971002709139 / 18014398509481984)) (Finite (5764607523034235 / 288230376151711744)) (catalog_part 4)
     = Inr []"
  by (simp add: catalog_part_def ALL_VALID_SIZES_def VALID_PRINT_SIZES_def float_eval)

lemma ratio_02_07_part5:
  "accepted (Finite (5146971002709139 / 18014398509481984)) (Finite (5764607523034235 / 288230376151711744)) (catalog_part 5)
     = Inr []"
  by (simp add: catalog_part_def ALL_VALID_SIZES_def VALID_PRINT_SIZES_def float_eval)

lemma ratio_02_07_part6:
  "accepted (Finite (5146971002709139 / 18014398509481984)) (Finite (5764607523034235 / 288230376151711744)) (catalog_part 6)
     = Inr []"
  by (simp add: catalog_part_def ALL_VALID_SIZES_def VALID_PRINT_SIZES_def float_eval)

lemma ratio_02_07_part7:
  "accepted (Finite (5146971002709139 / 18014398509481984)) (Finite (5764607523034235 / 288230376151711744)) (catalog_part 7)
     = Inr []"
  by (simp add: catalog_part_def ALL_VALID_SIZES_def VALID_PRINT_SIZES_def float_eval)

lemma ratio_02_07_accepted:
  "accepted (Finite (5146971002709139 / 18014398509481984)) (Finite (5764607523034235 / 288230376151711744)) ALL_VALID_SIZES
     = Inr [(8, 28)]"
  using accepted_parts[OF ratio_02_07_part0 ratio_02_07_part1 ratio_02_07_part2 ratio_02_07_part3 ratio_02_07_part4 ratio_02_07_part5 ratio_02_07_part6 ratio_02_07_part7]
  by simp

text \<open>The catalog against the ratio of 2 by 7, part by part.\<close>

lemma ratio_2_7_part0:
  "accepted (Finite (2573485501354569 / 9007199254740992)) (Finite (5764607523034235 / 288230376151711744)) (catalog_part 0)
     = Inr []"
  by (simp add: catalog_part_def ALL_VALID_SIZES_def VALID_PRINT_SIZES_def float_eval)

lemma ratio_2_7_part1:
  "accepted (Finite (2573485501354569 / 9007199254740992)) (Finite (5764607523034235 / 288230376151711744)) (catalog_part 1)
     = Inr []"
  by (simp add: catalog_part_def ALL_VALID_SIZES_def VALID_PRINT_SIZES_def float_eval)

lemma ratio_2_7_part2:
  "accepted (Finite (2573485501354569 / 9007199254740992)) (Finite (5764607523034235 / 288230376151711744)) (catalog_part 2)
     = Inr [(8, 28)]"
  by (simp add: catalog_part_def ALL_VALID_SIZES_def VALID_PRINT_SIZES_def float_eval)

lemma ratio_2_7_part3:
  "accepted (Finite (2573485501354569 / 9007199254740992)) (Finite (5764607523034235 / 288230376151711744)) (catalog_part 3)
     = Inr []"
  by (simp add: catalog_part_def ALL_VALID_SIZES_def VALID_PRINT_SIZES_def float_eval)

lemma ratio_2_7_part4:
  "accepted (Finite (2573485501354569 / 9007199254740992)) (Finite (5764607523034235 / 288230376151711744)) (catalog_part 4)
     = Inr [(14, 50)]"
  by (simp add: catalog_part_def ALL_VALID_SIZES_def VALID_PRINT_SIZES_def float_eval)

lemma ratio_2_7_part5:
  "accepted (Finite (2573485501354569 / 9007199254740992)) (Finite (5764607523034235 / 288230376151711744)) (catalog_part 5)
     = Inr []"
  by (simp add: catalog_part_def ALL_VALID_SIZES_def VALID_PRINT_SIZES_def float_eval)

lemma ratio_2_7_part6:
  "accepted (Finite (2573485501354569 / 9007199254740992)) (Finite (5764607523034235 / 288230376151711744)) (catalog_part 6)
     = Inr []"
  by (simp add: catalog_part_def ALL_VALID_SIZES_def VALID_PRINT_SIZES_def float_eval)

lemma ratio_2_7_part7:
  "accepted (Finite (2573485501354569 / 9007199254740992)) (Finite (5764607523034235 / 288230376151711744)) (catalog_part 7)
     = Inr []"
  by (simp add: catalog_part_def ALL_VALID_SIZES_def VALID_PRINT_SIZES_def float_eval)

lemma ratio_2_7_accepted:
  "accepted (Finite (2573485501354569 / 9007199254740992)) (Finite (5764607523034235 / 288230376151711744)) ALL_VALID_SIZES
     = Inr [(8, 28), (14, 50)]"
  using accepted_parts[OF ratio_2_7_part0 ratio_2_7_part1 ratio_2_7_part2 ratio_2_7_part3 ratio_2_7_part4 ratio_2_7_part5 ratio_2_7_part6 ratio_2_7_part7]
  by simp

subsection \<open>The query 1200 by 1800\<close>

lemma ratio_1200_1800: "fdiv (Finite 1200) (Finite 1800) = Inr (Finite (6004799503160661 / 9007199254740992))"
  by (simp add: float_eval)

lemma sorted_1200_1800:
  "sorted_by_size (remdups (map (\<lambda>(w, h). format_size w h)
     [(4, 6), (8, 12), (12, 18), (16, 24), (20, 30), (24, 36), (32, 48), (36, 54), (40, 60), (18, 27), (27, 40), (236 / 10, 354 / 10)]))
   = Inr matches_1200_1800"
  by code_simp

lemma far_sizes_absent:
  "list_all (\<lambda>((w, h), f). 1 / 50 < rel_error (1200 / 1800) (w / h) \<longrightarrow> f \<notin> set matches_1200_1800)
     (zip ALL_VALID_SIZES catalog_formats)"
  by (simp add: ALL_VALID_SIZES_def VALID_PRINT_SIZES_def catalog_formats_def rel_error_def
      matches_1200_1800_def)

text \<open>
  C7: for the query 1200 by 1800 and the default tolerance the matcher returns a list that
  holds \<open>4x6\<close> and \<open>24x36\<close>, and that holds the formatted size of no catalog entry whose
  ratio differs from 1200/1800 by more than 2 percent (the relative error taken in exact
  arithmetic).
\<close>

theorem C7_query_1200_1800:
  "find_matching_print_sizes (Finite 1200) (Finite 1800) default_tolerance = Inr matches_1200_1800
   \<and> ''4x6'' \<in> set matches_1200_1800 \<and> ''24x36'' \<in> set matches_1200_1800
   \<and> (\<forall>(w, h) \<in> set ALL_VALID_SIZES.
         1 / 50 < rel_error (1200 / 1800) (w / h) \<longrightarrow> format_size w h \<notin> set matches_1200_1800)"
proof (intro conjI)
  have "accepted (Finite (6004799503160661 / 9007199254740992)) default_tolerance ALL_VALID_SIZES
     = Inr [(4, 6), (8, 12), (12, 18), (16, 24), (20, 30), (24, 36), (32, 48), (36, 54), (40, 60), (18, 27), (27, 40), (236 / 10, 354 / 10)]"
    unfolding default_tolerance_value by (rule ratio_2_3_accepted)
  from find_matching_eval[OF ratio_1200_1800 this]
  show "find_matching_print_sizes (Finite 1200) (Finite 1800) default_tolerance = Inr matches_1200_1800"
    by (simp only: sorted_1200_1800)
  show "''4x6'' \<in> set matches_1200_1800" by (simp add: matches_1200_1800_def)
  show "''24x36'' \<in> set matches_1200_1800" by (simp add: matches_1200_1800_def)
  have "list_all (\<lambda>((w, h), f). 1 / 50 < rel_error (1200 / 1800) (w / h) \<longrightarrow> f \<notin> set matches_1200_1800)
     (zip ALL_VALID_SIZES (map (\<lambda>(w, h). format_size w h) ALL_VALID_SIZES))"
    unfolding all_formats by (rule far_sizes_absent)
  from zip_map_all[OF this]
  show "\<forall>(w, h) \<in> set ALL_VALID_SIZES.
         1 / 50 < rel_error (1200 / 1800) (w / h) \<longrightarrow> format_size w h \<notin> set matches_1200_1800"
    by auto
qed

theorem C7_query_1200_1800_witness:
  "(6, 6) \<in> set ALL_VALID_SIZES \<and> 1 / 50 < rel_error (1200 / 1800) (6 / 6)
   \<and> format_size 6 6 \<notin> set matches_1200_1800
   \<and> find_matching_print_sizes (Finite 1200) (Finite 1800) default_tolerance = Inr matches_1200_1800"
proof -
  have m: "(6, 6) \<in> set ALL_VALID_SIZES" by (simp add: ALL_VALID_SIZES_def VALID_PRINT_SIZES_def)
  have e: "1 / 50 < rel_error (1200 / 1800) (6 / 6)" by (simp add: rel_error_def)
  from C7_query_1200_1800 have
    a: "find_matching_print_sizes (Finite 1200) (Finite 1800) default_tolerance = Inr matches_1200_1800"
    and b: "\<forall>(w, h) \<in> set ALL_VALID_SIZES.
         1 / 50 < rel_error (1200 / 1800) (w / h) \<longrightarrow> format_size w h \<notin> set matches_1200_1800"
    by blast+
  from b m e have "format_size 6 6 \<notin> set matches_1200_1800" by blast
  with m e a show ?thesis by (simp only: simp_thms)
qed

subsection \<open>The simplified ratio of sizes that are not whole\<close>

lemma float_02: "to_float (2 / 10) = Finite (3602879701896397 / 18014398509481984)"
  by (simp add: float_eval)

lemma float_07: "to_float (7 / 10) = Finite (3152519739159347 / 4503599627370496)"
  by (simp add: float_eval)

lemma ratio_02_07: "fdiv (Finite (3602879701896397 / 18014398509481984)) (Finite (3152519739159347 / 4503599627370496)) = Inr (Finite (5146971002709139 / 18014398509481984))"
  by (simp add: float_eval)

lemma ratio_2_7: "fdiv (Finite 2) (Finite 7) = Inr (Finite (2573485501354569 / 9007199254740992))"
  by (simp add: float_eval)

lemma calculate_ratio_02_07: "calculate_ratio (Finite (3602879701896397 / 18014398509481984)) (Finite (3152519739159347 / 4503599627370496)) = Inr (Finite 2, Finite 7)"
  by code_simp

lemma sorted_02_07:
  "sorted_by_size (remdups (map (\<lambda>(w, h). format_size w h) [(8, 28)])) = Inr [''8x28'']"
  by code_simp

lemma sorted_2_7:
  "sorted_by_size (remdups (map (\<lambda>(w, h). format_size w h) [(8, 28), (14, 50)])) = Inr [''8x28'', ''14x50'']"
  by code_simp

text \<open>
  C4 fails on the floats 0.2 and 0.7. Both are positive, ten times each is a whole number
  (2.0 and 7.0), and \<open>calculate_ratio\<close> gives the pair (2, 7). From 0.2 and 0.7
  themselves the matcher returns \<open>8x28\<close> only; from the pair (2, 7) it returns \<open>8x28\<close>
  and \<open>14x50\<close>. The ratio 14/50 is off 2/7 by exactly 2 percent, and the two
  computations round on different sides of the tolerance.
\<close>

theorem C4_counterexample:
  "flt (Finite 0) (to_float (2 / 10)) \<and> flt (Finite 0) (to_float (7 / 10))
   \<and> fmul (to_float (2 / 10)) (Finite 10) = Finite 2 \<and> fmul (to_float (7 / 10)) (Finite 10) = Finite 7
   \<and> calculate_ratio (to_float (2 / 10)) (to_float (7 / 10)) = Inr (Finite 2, Finite 7)
   \<and> find_matching_print_sizes (to_float (2 / 10)) (to_float (7 / 10)) default_tolerance = Inr [''8x28'']
   \<and> find_matching_print_sizes (Finite 2) (Finite 7) default_tolerance = Inr [''8x28'', ''14x50'']"
proof (intro conjI)
  show "flt (Finite 0) (to_float (2 / 10))" unfolding float_02 by simp
  show "flt (Finite 0) (to_float (7 / 10))" unfolding float_07 by simp
  show "fmul (to_float (2 / 10)) (Finite 10) = Finite 2"
    unfolding float_02 by (simp add: float_eval)
  show "fmul (to_float (7 / 10)) (Finite 10) = Finite 7"
    unfolding float_07 by (simp add: float_eval)
  show "calculate_ratio (to_float (2 / 10)) (to_float (7 / 10)) = Inr (Finite 2, Finite 7)"
    unfolding float_02 float_07 by (rule calculate_ratio_02_07)
  have "accepted (Finite (5146971002709139 / 18014398509481984)) default_tolerance ALL_VALID_SIZES = Inr [(8, 28)]"
    unfolding default_tolerance_value by (rule ratio_02_07_accepted)
  from find_matching_eval[OF ratio_02_07 this]
  show "find_matching_print_sizes (to_float (2 / 10)) (to_float (7 / 10)) default_tolerance = Inr [''8x28'']"
    unfolding float_02 float_07 by (simp only: sorted_02_07)
  have "accepted (Finite (2573485501354569 / 9007199254740992)) default_tolerance ALL_VALID_SIZES = Inr [(8, 28), (14, 50)]"
    unfolding default_tolerance_value by (rule ratio_2_7_accepted)
  from find_matching_eval[OF ratio_2_7 this]
  show "find_matching_print_sizes (Finite 2) (Finite 7) default_tolerance = Inr [''8x28'', ''14x50'']"
    by (simp only: sorted_2_7)
qed

theorem C4_integer_sizes_witness:
  "calculate_ratio (Finite 1200) (Finite 1800) = Inr (Finite 2, Finite 3)
   \<and> find_matching_print_sizes (Finite 2) (Finite 3) default_tolerance
       = find_matching_print_sizes (Finite 1200) (Finite 1800) default_tolerance"
proof -
  have c: "calculate_ratio (Finite 1200) (Finite 1800) = Inr (Finite 2, Finite 3)" by code_simp
  have "(0::int) < 1200" "(0::int) < 1800" "10 * (1200::int) < 2 ^ 53" "10 * (1800::int) < 2 ^ 53"
    by simp_all
  from C4_integer_sizes[OF this, of default_tolerance]
  obtain ratio_w ratio_h where
    r: "calculate_ratio (Finite (of_int 1200)) (Finite (of_int 1800)) = Inr (Finite ratio_w, Finite ratio_h)"
    and m: "find_matching_print_sizes (Finite ratio_w) (Finite ratio_h) default_tolerance
       = find_matching_print_sizes (Finite (of_int 1200)) (Finite (of_int 1800)) default_tolerance"
    by blast
  from r c have "ratio_w = 2" "ratio_h = 3" by simp_all
  with m c show ?thesis by simp
qed

end
